theory Spec2Isabelle
  imports Complex_Main "HOL-Library.Word" "HOL-Library.Multiset"
begin

section \<open>Python exceptions as values\<close>

text \<open>
  Every \<^verbatim>\<open>raise\<close> of the scripts, and every exception of \<^verbatim>\<open>struct\<close> and \<^verbatim>\<open>numpy\<close> they can
  meet, is a value. \<open>ValueError\<close> carries the message; \<open>UnsupportedWavFormat f b\<close> is the
  \<^verbatim>\<open>ValueError\<close> whose message is formatted from the format code and the bit depth;
  \<open>StructError\<close> is \<^verbatim>\<open>struct.error\<close>; \<open>OverflowError\<close> is raised when an \<^verbatim>\<open>int\<close> too large for a
  \<^verbatim>\<open>float\<close> meets one in arithmetic; \<open>LibsndfileError\<close> is what the \<^verbatim>\<open>soundfile\<close> library raises on
  data it cannot read or write.
\<close>

datatype exn =
    ValueError string
  | UnsupportedWavFormat nat nat
  | StructError
  | ZeroDivisionError
  | IndexError
  | OverflowError
  | LibsndfileError string

section \<open>Rhythm generator (generate\_koenig\_seed.py)\<close>

text \<open>
  \<^verbatim>\<open>euclidean_rhythm(pulses, steps)\<close>: Bjorklund's algorithm on lists of groups. Python's
  \<^verbatim>\<open>[[1]] * pulses\<close> is the empty list for a negative count, as \<open>replicate (nat pulses)\<close> is.
  The \<^verbatim>\<open>while len(remainder) > 1\<close> loop does not return when \<open>pattern\<close> is empty and
  \<open>remainder\<close> has two groups or more (negative \<open>pulses\<close>), so the loop is a partial function:
  \<open>None\<close> is "does not return".
\<close>

partial_function (option) bjorklund_loop ::
  "int list list \<Rightarrow> int list list \<Rightarrow> (int list list \<times> int list list) option" where
  "bjorklund_loop pattern remainder =
     (if length remainder > 1 then
        (let take_n = min (length pattern) (length remainder);
             merged = map (\<lambda>i. pattern ! i @ remainder ! i) [0..<take_n];
             leftover_pattern = drop take_n pattern;
             leftover_remainder = drop take_n remainder
         in bjorklund_loop merged (leftover_pattern @ leftover_remainder))
      else Some (pattern, remainder))"

definition euclidean_rhythm :: "int \<Rightarrow> int \<Rightarrow> int list option" where
  "euclidean_rhythm pulses steps =
     (if pulses \<ge> steps then Some (replicate (nat steps) 1)
      else if pulses = 0 then Some (replicate (nat steps) 0)
      else (case bjorklund_loop (replicate (nat pulses) [1]) (replicate (nat (steps - pulses)) [0]) of
              None \<Rightarrow> None
            | Some (pattern, remainder) \<Rightarrow> Some (concat (pattern @ remainder))))"

lemma merged_mset:
  "mset (concat (map (\<lambda>i. p ! i @ r ! i) [0..<min (length p) (length r)]))
     + mset (concat (drop (min (length p) (length r)) p))
     + mset (concat (drop (min (length p) (length r)) r))
   = mset (concat p) + mset (concat r)"
proof (induction p r rule: list_induct2')
  case (4 x xs y ys)
  have "map (\<lambda>i. (x # xs) ! i @ (y # ys) ! i) [0..<Suc (min (length xs) (length ys))]
        = (x @ y) # map (\<lambda>i. xs ! i @ ys ! i) [0..<min (length xs) (length ys)]"
    by (simp add: upt_conv_Cons map_Suc_upt [symmetric] del: upt_Suc)
  with 4 show ?case by (simp add: ac_simps)
qed simp_all

lemma bjorklund_loop_returns:
  "p \<noteq> [] \<Longrightarrow> \<exists>p' r'. bjorklund_loop p r = Some (p', r')
       \<and> mset (concat (p' @ r')) = mset (concat (p @ r))"
proof (induction "length p + length r" arbitrary: p r rule: less_induct)
  case less
  show ?case
  proof (cases "length r > 1")
    case False
    then show ?thesis by (subst bjorklund_loop.simps) simp
  next
    case True
    define t where "t = min (length p) (length r)"
    define m where "m = map (\<lambda>i. p ! i @ r ! i) [0..<t]"
    define r2 where "r2 = drop t p @ drop t r"
    from True less.prems have tpos: "t > 0" by (cases p) (auto simp: t_def)
    then have mne: "m \<noteq> []" by (simp add: m_def)
    have "length m + length r2 < length p + length r"
      using tpos by (auto simp: m_def r2_def t_def)
    from less.hyps [OF this mne] obtain p' r' where
      res: "bjorklund_loop m r2 = Some (p', r')"
      and ms: "mset (concat (p' @ r')) = mset (concat (m @ r2))" by blast
    have step: "bjorklund_loop p r = bjorklund_loop m r2"
      using True by (subst bjorklund_loop.simps) (simp add: m_def r2_def t_def Let_def)
    have "mset (concat (m @ r2)) = mset (concat (p @ r))"
      using merged_mset [of p r] by (simp add: m_def r2_def t_def ac_simps)
    with res ms step show ?thesis by simp
  qed
qed

lemma count_list_replicate_eq: "count_list (replicate m x) y = (if x = y then m else 0)"
  by (induction m) auto

lemma concat_replicate_single: "concat (replicate m [x]) = replicate m x"
  by (induction m) simp_all

lemma euclidean_rhythm_mset:
  assumes "0 < k" "k < n"
  shows "\<exists>xs. euclidean_rhythm k n = Some xs
     \<and> mset xs = replicate_mset (nat k) 1 + replicate_mset (nat (n - k)) 0"
proof -
  from assms have ne: "replicate (nat k) [1::int] \<noteq> []" by simp
  from bjorklund_loop_returns [OF ne, of "replicate (nat (n - k)) [0]"] obtain p' r' where
    res: "bjorklund_loop (replicate (nat k) [1]) (replicate (nat (n - k)) [0]) = Some (p', r')"
    and ms: "mset (concat (p' @ r'))
       = mset (concat (replicate (nat k) [1::int] @ replicate (nat (n - k)) [0]))" by blast
  from assms res have "euclidean_rhythm k n = Some (concat (p' @ r'))"
    by (simp add: euclidean_rhythm_def)
  moreover from ms have "mset (concat (p' @ r'))
       = replicate_mset (nat k) 1 + replicate_mset (nat (n - k)) 0"
    by (simp add: concat_replicate_single)
  ultimately show ?thesis by blast
qed

text \<open>
  Claim C3. For all integers \<open>k \<ge> 0\<close> and \<open>n \<ge> 1\<close>, \<open>euclidean_rhythm k n\<close> returns (the loop
  terminates) a sequence of length exactly \<open>n\<close> with entries 0 and 1 only; when \<open>k \<ge> n\<close> every
  entry is 1; when \<open>k = 0\<close> every entry is 0; otherwise exactly \<open>k\<close> entries are 1 (and \<open>n - k\<close> are
  0); and \<open>euclidean_rhythm 5 13\<close> is \<open>[1,0,0,1,0,1,0,0,1,0,1,0,0]\<close>. The result is a function
  of \<open>(k, n)\<close> alone: the code reads no other state, so equal inputs give equal outputs.
\<close>

theorem euclidean_rhythm_spec:
  assumes "0 \<le> k" "1 \<le> n"
  shows "(\<exists>xs. euclidean_rhythm k n = Some xs \<and> int (length xs) = n \<and> set xs \<subseteq> {0, 1}
       \<and> (k \<ge> n \<longrightarrow> xs = replicate (nat n) 1)
       \<and> (k = 0 \<longrightarrow> xs = replicate (nat n) 0)
       \<and> (k < n \<longrightarrow> int (count_list xs 1) = k \<and> int (count_list xs 0) = n - k))
     \<and> euclidean_rhythm 5 13 = Some [1,0,0,1,0,1,0,0,1,0,1,0,0]"
proof (rule conjI)
  show "euclidean_rhythm 5 13 = Some [1,0,0,1,0,1,0,0,1,0,1,0,0]"
    unfolding euclidean_rhythm_def
    by (simp add: bjorklund_loop.simps eval_nat_numeral upt_rec)
next
  consider "k \<ge> n" | "k = 0" "k < n" | "0 < k" "k < n" using assms by linarith
  then show "\<exists>xs. euclidean_rhythm k n = Some xs \<and> int (length xs) = n \<and> set xs \<subseteq> {0, 1}
       \<and> (k \<ge> n \<longrightarrow> xs = replicate (nat n) 1)
       \<and> (k = 0 \<longrightarrow> xs = replicate (nat n) 0)
       \<and> (k < n \<longrightarrow> int (count_list xs 1) = k \<and> int (count_list xs 0) = n - k)"
  proof cases
    case 1
    with assms show ?thesis by (simp add: euclidean_rhythm_def)
  next
    case 2
    with assms show ?thesis by (simp add: euclidean_rhythm_def count_list_replicate_eq)
  next
    case 3
    from euclidean_rhythm_mset [OF 3] obtain xs where
      r: "euclidean_rhythm k n = Some xs"
      and ms: "mset xs = replicate_mset (nat k) 1 + replicate_mset (nat (n - k)) 0" by blast
    from ms have "size (mset xs) = nat k + nat (n - k)" by simp
    with 3 have len: "int (length xs) = n" by simp
    from ms have "set_mset (mset xs) \<subseteq> {0, 1}" by (auto split: if_splits)
    then have st: "set xs \<subseteq> {0, 1}" by simp
    from ms have "count (mset xs) 1 = nat k" "count (mset xs) 0 = nat (n - k)" by simp_all
    with 3 have "int (count_list xs 1) = k" "int (count_list xs 0) = n - k"
      by (simp_all add: count_mset)
    with r len st 3 show ?thesis by simp
  qed
qed

theorem euclidean_rhythm_spec_witness:
  "(0::int) \<le> 3 \<and> (1::int) \<le> 8
   \<and> (\<exists>xs. euclidean_rhythm 3 8 = Some xs \<and> int (length xs) = 8 \<and> int (count_list xs 1) = 3)"
  using euclidean_rhythm_spec [of 3 8] by auto

section \<open>Seed buffer (generate\_koenig\_seed.py)\<close>


























section \<open>WAV codec (ace\_bridge\_server.py)\<close>

text \<open>
  \<^verbatim>\<open>decode_wav_bytes\<close> and \<^verbatim>\<open>encode_wav_bytes\<close> try the \<^verbatim>\<open>soundfile\<close> library first and fall
  back to their own parser and writer on \<^verbatim>\<open>ImportError\<close>. The library is no part of the
  repository: it is a parameter of both functions, \<open>None\<close> when \<^verbatim>\<open>import soundfile\<close> raises
  \<^verbatim>\<open>ImportError\<close>, and otherwise the two library functions the code calls, \<^verbatim>\<open>sf.read\<close> on a
  byte buffer and \<^verbatim>\<open>sf.write\<close> to a byte buffer as a float WAV. Only \<^verbatim>\<open>ImportError\<close> is caught:
  every exception of the library itself leaves the function. The parser and the writer of
  the repository are \<open>decode_wav_fallback\<close> and \<open>encode_wav_fallback\<close>.

  Bytes are 8-bit words. A \<^verbatim>\<open>np.float32\<close> is its IEEE-754 bit pattern, a 32-bit word, so that
  \<^verbatim>\<open>tobytes\<close> and \<^verbatim>\<open>np.frombuffer\<close> are exact; the host is little-endian, as numpy's native
  \<^verbatim>\<open>int16\<close> and \<^verbatim>\<open>float32\<close> are on the machines the bridge runs on. \<open>slice i j\<close> is Python's
  \<^verbatim>\<open>b[i:j]\<close> for \<open>0 \<le> i\<close>, which is shorter than \<open>j - i\<close> at the end of the buffer.
  \<open>pack_uint k\<close> is \<^verbatim>\<open>struct.pack\<close> of one unsigned little-endian field of \<open>k\<close> bytes, which
  raises \<^verbatim>\<open>struct.error\<close> out of range. \<open>signed_of bits\<close> reads an unsigned value as two's
  complement. An array read by the library is \<open>Mono\<close> (one dimension) or \<open>Frames\<close> (two
  dimensions, a list of channel values per frame).
\<close>

type_synonym byte = "8 word"
type_synonym float32 = "32 word"

datatype ndarray = Mono "float32 list" | Frames "float32 list list"

record soundfile =
  sf_read :: "byte list \<Rightarrow> exn + (ndarray \<times> nat)"
  sf_write :: "float32 list \<Rightarrow> int \<Rightarrow> exn + byte list"

definition slice :: "nat \<Rightarrow> nat \<Rightarrow> 'a list \<Rightarrow> 'a list" where
  "slice i j xs = take (j - i) (drop i xs)"

fun le_uint :: "byte list \<Rightarrow> nat" where
  "le_uint [] = 0"
| "le_uint (b # bs) = unat b + 256 * le_uint bs"

fun le_bytes :: "nat \<Rightarrow> nat \<Rightarrow> byte list" where
  "le_bytes 0 n = []"
| "le_bytes (Suc k) n = of_nat (n mod 256) # le_bytes k (n div 256)"

definition pack_uint :: "nat \<Rightarrow> int \<Rightarrow> exn + byte list" where
  "pack_uint k n = (if 0 \<le> n \<and> n < 256 ^ k then Inr (le_bytes k (nat n)) else Inl StructError)"

definition ascii :: "string \<Rightarrow> byte list" where
  "ascii s = map (\<lambda>c. of_nat (of_char c)) s"

definition groups :: "nat \<Rightarrow> 'a list \<Rightarrow> 'a list list" where
  "groups k xs = map (\<lambda>i. slice (i * k) ((i + 1) * k) xs) [0..<length xs div k]"

definition signed_of :: "nat \<Rightarrow> nat \<Rightarrow> int" where
  "signed_of bits n = (if n < 2 ^ (bits - 1) then int n else int n - 2 ^ bits)"

text \<open>
  \<open>float32_of_scaled v k\<close> is the float32 that numpy computes for the integer \<open>v\<close> divided by
  \<open>2 ^ k\<close>: for \<open>\<bar>v\<bar> < 2 ^ 24\<close> the quotient is representable, so the division rounds nothing
  (\<open>top_bit\<close> is the position of the leading one). \<open>float32_value\<close> reads a finite bit
  pattern as a real number.
\<close>

fun top_bit :: "nat \<Rightarrow> nat" where
  "top_bit a = (if a < 2 then 0 else Suc (top_bit (a div 2)))"

definition float32_of_scaled :: "int \<Rightarrow> nat \<Rightarrow> float32" where
  "float32_of_scaled v k =
     (if v = 0 then 0
      else let a = nat \<bar>v\<bar>; p = top_bit a;
               frac = a * 2 ^ (23 - p) - 2 ^ 23;
               e = 127 + p - k;
               sign = (if v < 0 then 2 ^ 31 else 0)
           in of_nat (sign + e * 2 ^ 23 + frac))"

definition float32_value :: "float32 \<Rightarrow> real" where
  "float32_value w =
     (let n = unat w; s = n div 2 ^ 31; e = (n div 2 ^ 23) mod 256; f = n mod 2 ^ 23
      in (if s = 1 then - 1 else 1)
         * (if e = 0 then real f / 2 ^ 149 else real ((2 ^ 23 + f) * 2 ^ e) / 2 ^ 150))"

definition float32_tobytes :: "float32 \<Rightarrow> byte list" where
  "float32_tobytes w = le_bytes 4 (unat w)"

definition float32_frombytes :: "byte list \<Rightarrow> float32" where
  "float32_frombytes bs = of_nat (le_uint bs)"

declare top_bit.simps [simp del]

lemma top_bit_0 [simp]: "top_bit 0 = 0"
  by (subst top_bit.simps) simp

lemma top_bit_1 [simp]: "top_bit 1 = 0"
  by (subst top_bit.simps) simp

lemma top_bit_Suc_0 [simp]: "top_bit (Suc 0) = 0"
  by (subst top_bit.simps) simp

lemma top_bit_One [simp]: "top_bit (numeral Num.One) = 0"
  by (subst top_bit.simps) simp

lemma top_bit_Bit0 [simp]: "top_bit (numeral (Num.Bit0 n)) = Suc (top_bit (numeral n))"
  by (subst top_bit.simps) (simp add: numeral_Bit0_div_2)

lemma top_bit_Bit1 [simp]: "top_bit (numeral (Num.Bit1 n)) = Suc (top_bit (numeral n))"
  by (subst top_bit.simps) (simp add: numeral_Bit1_div_2)

lemma le_bytes_numeral:
  "le_bytes (numeral k) n = of_nat (n mod 256) # le_bytes (pred_numeral k) (n div 256)"
proof -
  have "numeral k = Suc (pred_numeral k)" by (rule numeral_eq_Suc)
  then show ?thesis by (simp only: le_bytes.simps)
qed

lemma le_bytes_1: "le_bytes 1 n = [of_nat (n mod 256)]"
  unfolding One_nat_def by (simp only: le_bytes.simps)

text \<open>
  The chunk walk of the fallback parser of \<^verbatim>\<open>decode_wav_bytes\<close>. The loop condition
  \<^verbatim>\<open>pos < len(wav_bytes) - 8\<close> is
  \<open>pos + 8 < length wav_bytes\<close> (the length is at least 44 there), so the four bytes of the
  size field are always present; \<^verbatim>\<open>struct.unpack('<HHIIHH', ...)\<close> raises unless it is given
  exactly 16 bytes. \<open>fmt_info\<close> holds the locals \<^verbatim>\<open>audio_format\<close>, \<^verbatim>\<open>channels\<close>,
  \<^verbatim>\<open>sample_rate\<close> and \<^verbatim>\<open>bits_per_sample\<close>. \<^verbatim>\<open>np.frombuffer\<close> raises when the buffer is not
  a whole number of items, \<^verbatim>\<open>reshape(-1, channels)\<close> when the samples are not a whole number
  of frames. The mean over the channels of a frame is float32 arithmetic: it is the
  parameter \<open>mean\<close>.
\<close>

record fmt_info =
  fmt_audio_format :: nat
  fmt_channels :: nat
  fmt_sample_rate :: nat
  fmt_bits_per_sample :: nat

definition RIFF :: "byte list" where "RIFF = ascii ''RIFF''"
definition WAVE :: "byte list" where "WAVE = ascii ''WAVE''"
definition fmt_tag :: "byte list" where "fmt_tag = ascii ''fmt ''"
definition data_tag :: "byte list" where "data_tag = ascii ''data''"

definition unpack_fmt :: "byte list \<Rightarrow> exn + fmt_info" where
  "unpack_fmt bs =
     (if length bs \<noteq> 16 then Inl StructError
      else Inr \<lparr>fmt_audio_format = le_uint (slice 0 2 bs), fmt_channels = le_uint (slice 2 4 bs),
                 fmt_sample_rate = le_uint (slice 4 8 bs), fmt_bits_per_sample = le_uint (slice 14 16 bs)\<rparr>)"

function parse_chunks ::
  "byte list \<Rightarrow> nat \<Rightarrow> bool \<times> fmt_info \<Rightarrow> exn + (bool \<times> fmt_info \<times> byte list)" where
  "parse_chunks wav_bytes pos (fmt_found, info) =
     (if pos + 8 < length wav_bytes then
        (let chunk_id = slice pos (pos + 4) wav_bytes;
             chunk_size = le_uint (slice (pos + 4) (pos + 8) wav_bytes);
             pos1 = pos + 8
         in if chunk_id = fmt_tag then
              (case unpack_fmt (slice pos1 (pos1 + 16) wav_bytes) of
                 Inl e \<Rightarrow> Inl e
               | Inr fmt_data \<Rightarrow> parse_chunks wav_bytes (pos1 + chunk_size) (True, fmt_data))
            else if chunk_id = data_tag then
              Inr (fmt_found, info, slice pos1 (pos1 + chunk_size) wav_bytes)
            else parse_chunks wav_bytes (pos1 + chunk_size) (fmt_found, info))
      else Inr (fmt_found, info, []))"
  by pat_completeness auto
termination
  by (relation "measure (\<lambda>(wav_bytes, pos, st). length wav_bytes - pos)") auto

declare parse_chunks.simps [simp del]

definition frombuffer :: "nat \<Rightarrow> byte list \<Rightarrow> exn + byte list list" where
  "frombuffer itemsize bs =
     (if length bs mod itemsize \<noteq> 0
      then Inl (ValueError ''buffer size must be a multiple of element size'')
      else Inr (groups itemsize bs))"

definition decode_samples :: "fmt_info \<Rightarrow> byte list \<Rightarrow> exn + float32 list" where
  "decode_samples info data_bytes =
     (if fmt_audio_format info = 3 \<and> fmt_bits_per_sample info = 32 then
        (case frombuffer 4 data_bytes of
           Inl e \<Rightarrow> Inl e
         | Inr items \<Rightarrow> Inr (map float32_frombytes items))
      else if fmt_audio_format info = 1 \<and> fmt_bits_per_sample info = 16 then
        (case frombuffer 2 data_bytes of
           Inl e \<Rightarrow> Inl e
         | Inr items \<Rightarrow> Inr (map (\<lambda>b. float32_of_scaled (signed_of 16 (le_uint b)) 15) items))
      else if fmt_audio_format info = 1 \<and> fmt_bits_per_sample info = 24 then
        (let n_samples = length data_bytes div 3
         in Inr (map (\<lambda>i. let b = slice (i * 3) ((i + 1) * 3) data_bytes;
                               val = signed_of 24 (le_uint b)
                           in float32_of_scaled val 23) [0..<n_samples]))
      else Inl (UnsupportedWavFormat (fmt_audio_format info) (fmt_bits_per_sample info)))"

definition mix_to_mono :: "(float32 list \<Rightarrow> float32) \<Rightarrow> nat \<Rightarrow> float32 list \<Rightarrow> exn + float32 list" where
  "mix_to_mono mean chans samples =
     (if chans > 1 then
        (if length samples mod chans \<noteq> 0
         then Inl (ValueError ''cannot reshape array'')
         else Inr (map mean (groups chans samples)))
      else Inr samples)"

definition default_fmt :: fmt_info where
  "default_fmt = \<lparr>fmt_audio_format = 1, fmt_channels = 1, fmt_sample_rate = 48000, fmt_bits_per_sample = 16\<rparr>"

definition decode_wav_fallback ::
  "(float32 list \<Rightarrow> float32) \<Rightarrow> byte list \<Rightarrow> exn + (float32 list \<times> nat)" where
  "decode_wav_fallback mean wav_bytes =
     (if length wav_bytes < 44 then Inl (ValueError ''WAV data too short'')
      else if slice 0 4 wav_bytes \<noteq> RIFF \<or> slice 8 12 wav_bytes \<noteq> WAVE
      then Inl (ValueError ''Not a valid WAV file'')
      else
        (case parse_chunks wav_bytes 12 (False, default_fmt) of
           Inl e \<Rightarrow> Inl e
         | Inr (fmt_found, info, data_bytes) \<Rightarrow>
             if \<not> fmt_found \<or> data_bytes = []
             then Inl (ValueError ''Missing fmt or data chunk in WAV'')
             else
               (case decode_samples info data_bytes of
                  Inl e \<Rightarrow> Inl e
                | Inr samples \<Rightarrow>
                    (case mix_to_mono mean (fmt_channels info) samples of
                       Inl e \<Rightarrow> Inl e
                     | Inr mixed \<Rightarrow> Inr (mixed, fmt_sample_rate info)))))"

definition decode_wav_bytes ::
  "soundfile option \<Rightarrow> (float32 list \<Rightarrow> float32) \<Rightarrow> byte list \<Rightarrow> exn + (float32 list \<times> nat)" where
  "decode_wav_bytes sf mean wav_bytes =
     (case sf of
        Some lib \<Rightarrow>
          (case sf_read lib wav_bytes of
             Inl e \<Rightarrow> Inl e
           | Inr (data, sr) \<Rightarrow>
               Inr (case data of Mono samples \<Rightarrow> samples | Frames frames \<Rightarrow> map mean frames, sr))
      | None \<Rightarrow> decode_wav_fallback mean wav_bytes)"

definition bind_exn :: "exn + 'a \<Rightarrow> ('a \<Rightarrow> exn + 'b) \<Rightarrow> exn + 'b" where
  "bind_exn m f = (case m of Inl e \<Rightarrow> Inl e | Inr x \<Rightarrow> f x)"

definition encode_wav_fallback :: "float32 list \<Rightarrow> int \<Rightarrow> exn + byte list" where
  "encode_wav_fallback samples sample_rate =
     (let data = concat (map float32_tobytes samples);
          num_channels = 1;
          bits_per_sample = 32;
          byte_rate = sample_rate * num_channels * (bits_per_sample div 8);
          block_align = num_channels * (bits_per_sample div 8)
      in bind_exn (pack_uint 4 (36 + int (length data))) (\<lambda>riff_size.
         bind_exn (pack_uint 4 16) (\<lambda>fmt_size.
         bind_exn (pack_uint 2 3) (\<lambda>fmt_code.
         bind_exn (pack_uint 2 num_channels) (\<lambda>nch.
         bind_exn (pack_uint 4 sample_rate) (\<lambda>rate.
         bind_exn (pack_uint 4 byte_rate) (\<lambda>brate.
         bind_exn (pack_uint 2 block_align) (\<lambda>balign.
         bind_exn (pack_uint 2 bits_per_sample) (\<lambda>bits.
         bind_exn (pack_uint 4 (int (length data))) (\<lambda>data_size.
           Inr (RIFF @ riff_size @ WAVE @ fmt_tag @ fmt_size @ fmt_code @ nch @ rate @ brate
                @ balign @ bits @ data_tag @ data_size @ data)))))))))))"

definition encode_wav_bytes :: "soundfile option \<Rightarrow> float32 list \<Rightarrow> int \<Rightarrow> exn + byte list" where
  "encode_wav_bytes sf samples sample_rate =
     (case sf of
        Some lib \<Rightarrow> sf_write lib samples sample_rate
      | None \<Rightarrow> encode_wav_fallback samples sample_rate)"

subsection \<open>Bytes, slices and the encoder's header\<close>

lemma length_le_bytes [simp]: "length (le_bytes k n) = k"
  by (induction k arbitrary: n) simp_all

lemma unat_byte_of_nat: "unat (of_nat m :: byte) = m mod 256"
  by (simp add: unat_of_nat)

lemma le_uint_le_bytes: "le_uint (le_bytes k n) = n mod 256 ^ k"
proof (induction k arbitrary: n)
  case 0
  show ?case by simp
next
  case (Suc k)
  have "n mod 256 + 256 * (n div 256 mod 256 ^ k) = n mod (256 * 256 ^ k)"
    by (simp add: mod_mult2_eq)
  with Suc show ?case by (simp add: unat_byte_of_nat)
qed

lemma le_uint_bound: "le_uint bs < 256 ^ length bs"
proof (induction bs)
  case Nil
  show ?case by simp
next
  case (Cons b bs)
  have "unat b < 256" using unsigned_less [of b] by simp
  with Cons show ?case by simp
qed

lemma le_bytes_le_uint: "le_bytes (length bs) (le_uint bs) = bs"
proof (induction bs)
  case Nil
  show ?case by simp
next
  case (Cons b bs)
  have b: "unat b < 256" using unsigned_less [of b] by simp
  then have "(unat b + 256 * le_uint bs) mod 256 = unat b"
    and "(unat b + 256 * le_uint bs) div 256 = le_uint bs" by simp_all
  with Cons show ?case by simp
qed

lemma float32_bytes_roundtrip [simp]: "float32_frombytes (float32_tobytes w) = w"
proof -
  have "unat w < 2 ^ 32" using unsigned_less [of w] by simp
  then have "unat w mod 256 ^ 4 = unat w" by simp
  then show ?thesis
    by (simp only: float32_frombytes_def float32_tobytes_def le_uint_le_bytes) simp
qed

lemma length_float32_tobytes [simp]: "length (float32_tobytes w) = 4"
  by (simp only: float32_tobytes_def length_le_bytes)

lemma slice_append_left: "j \<le> length a \<Longrightarrow> slice i j (a @ b) = slice i j a"
  by (simp add: slice_def)

lemma slice_append_right: "length a \<le> i \<Longrightarrow> slice i j (a @ b) = slice (i - length a) (j - length a) b"
  by (simp add: slice_def)

lemma slice_prefix: "slice 0 (length a) (a @ b) = a"
  by (simp add: slice_def)

lemma slice_at: "slice (length a) (length a + n) (a @ b) = take n b"
  by (simp add: slice_def)

lemma slice_all: "length b \<le> n \<Longrightarrow> slice 0 n b = b"
  by (simp add: slice_def)

lemma length_slice: "length (slice i j xs) = min (j - i) (length xs - i)"
  by (simp add: slice_def)

lemma groups_Cons:
  assumes "length a = k" "0 < k"
  shows "groups k (a @ ys) = a # groups k ys"
proof -
  have d: "length (a @ ys) div k = Suc (length ys div k)" using assms by simp
  have u: "[0..<Suc (length ys div k)] = 0 # map Suc [0..<length ys div k]"
    by (simp add: upt_conv_Cons map_Suc_upt del: upt_Suc)
  have s0: "slice (0 * k) ((0 + 1) * k) (a @ ys) = a" using assms by (simp add: slice_def)
  have si: "slice (Suc i * k) ((Suc i + 1) * k) (a @ ys) = slice (i * k) ((i + 1) * k) ys" for i
    using assms by (simp add: slice_def)
  show ?thesis unfolding groups_def d u by (simp only: list.map map_map o_def s0 si)
qed

lemma groups_concat:
  assumes "\<And>x. length (f x) = k" "0 < k"
  shows "groups k (concat (map f xs)) = map f xs"
proof (induction xs)
  case Nil
  show ?case by (simp add: groups_def)
next
  case (Cons x xs)
  then show ?case using groups_Cons [OF assms(1) assms(2), of x] by simp
qed

lemma length_groups [simp]: "length (groups k xs) = length xs div k"
  by (simp add: groups_def)

lemma nth_groups: "i < length xs div k \<Longrightarrow> groups k xs ! i = slice (i * k) ((i + 1) * k) xs"
  by (simp add: groups_def)

lemma length_concat_tobytes [simp]: "length (concat (map float32_tobytes xs)) = 4 * length xs"
  by (induction xs) simp_all

lemma float32_tobytes_nonempty [simp]: "float32_tobytes w \<noteq> []"
proof
  assume "float32_tobytes w = []"
  then have "length (float32_tobytes w) = length ([] :: byte list)" by (rule arg_cong)
  then show False by (simp only: length_float32_tobytes) simp
qed

lemma tags_ascii:
  "RIFF = [82, 73, 70, 70]" "WAVE = [87, 65, 86, 69]"
  "fmt_tag = [102, 109, 116, 32]" "data_tag = [100, 97, 116, 97]"
  by (simp_all add: RIFF_def WAVE_def fmt_tag_def data_tag_def ascii_def)

lemma length_tags [simp]:
  "length RIFF = 4" "length WAVE = 4" "length fmt_tag = 4" "length data_tag = 4"
  by (simp_all add: tags_ascii)

lemma fmt_tag_neq_data_tag [simp]: "fmt_tag \<noteq> data_tag" "data_tag \<noteq> fmt_tag"
  by (simp_all add: tags_ascii)

lemma slice_fields:
  assumes "i \<le> j" "j \<le> length fs"
  shows "slice (length (concat (take i fs))) (length (concat (take j fs))) (concat fs @ rest)
       = concat (take (j - i) (drop i fs))"
proof -
  have fs: "fs = take i fs @ take (j - i) (drop i fs) @ drop j fs"
    using assms by (metis append_take_drop_id drop_drop take_drop add.commute le_add_diff_inverse)
  have tj: "take j fs = take i fs @ take (j - i) (drop i fs)"
    using assms by (metis take_add le_add_diff_inverse)
  have "concat fs @ rest = concat (take i fs) @ concat (take (j - i) (drop i fs))
          @ (concat (drop j fs) @ rest)"
    by (subst fs) simp
  then show ?thesis unfolding tj by (simp add: slice_def)
qed

definition header_fields :: "nat \<Rightarrow> nat \<Rightarrow> byte list list" where
  "header_fields n r =
     [RIFF, le_bytes 4 (36 + 4 * n), WAVE, fmt_tag, le_bytes 4 16, le_bytes 2 3, le_bytes 2 1,
      le_bytes 4 r, le_bytes 4 (4 * r), le_bytes 2 4, le_bytes 2 32, data_tag, le_bytes 4 (4 * n)]"

lemma pack_uint_ok: "0 \<le> x \<Longrightarrow> x < 256 ^ k \<Longrightarrow> pack_uint k x = Inr (le_bytes k (nat x))"
  by (simp add: pack_uint_def)

lemma bind_pack_uint:
  "bind_exn (pack_uint k x) f
     = (if 0 \<le> x \<and> x < 256 ^ k then f (le_bytes k (nat x)) else Inl StructError)"
  by (simp add: bind_exn_def pack_uint_def)

lemma encode_wav_fallback_ok:
  assumes "0 \<le> r" "r < 2 ^ 30" "36 + 4 * length B < 2 ^ 32"
  shows "encode_wav_fallback B r
       = Inr (concat (header_fields (length B) (nat r)) @ concat (map float32_tobytes B))"
proof -
  have n1: "nat (36 + 4 * int (length B)) = 36 + 4 * length B" by linarith
  have n2: "nat (4 * int (length B)) = 4 * length B" by linarith
  have n3: "nat (r * 4) = 4 * nat r" using assms by linarith
  show ?thesis using assms
    by (simp add: encode_wav_fallback_def Let_def bind_pack_uint header_fields_def n1 n2 n3)
qed

lemma encode_wav_fallback_fails:
  assumes "r < 0 \<or> 2 ^ 30 \<le> r \<or> 2 ^ 32 \<le> 36 + 4 * length B"
  shows "encode_wav_fallback B r = Inl StructError"
  using assms by (auto simp: encode_wav_fallback_def Let_def bind_pack_uint)

lemma length_header_fields [simp]: "length (concat (header_fields n r)) = 44"
  by (simp add: header_fields_def)

lemma header_layout:
  "slice 0 4 (concat (header_fields n r) @ rest) = RIFF"
  "slice 4 8 (concat (header_fields n r) @ rest) = le_bytes 4 (36 + 4 * n)"
  "slice 8 12 (concat (header_fields n r) @ rest) = WAVE"
  "slice 12 16 (concat (header_fields n r) @ rest) = fmt_tag"
  "slice 16 20 (concat (header_fields n r) @ rest) = le_bytes 4 16"
  "slice 20 22 (concat (header_fields n r) @ rest) = le_bytes 2 3"
  "slice 22 24 (concat (header_fields n r) @ rest) = le_bytes 2 1"
  "slice 24 28 (concat (header_fields n r) @ rest) = le_bytes 4 r"
  "slice 28 32 (concat (header_fields n r) @ rest) = le_bytes 4 (4 * r)"
  "slice 32 34 (concat (header_fields n r) @ rest) = le_bytes 2 4"
  "slice 34 36 (concat (header_fields n r) @ rest) = le_bytes 2 32"
  "slice 36 40 (concat (header_fields n r) @ rest) = data_tag"
  "slice 40 44 (concat (header_fields n r) @ rest) = le_bytes 4 (4 * n)"
  "drop 44 (concat (header_fields n r) @ rest) = rest"
  by (simp_all add: slice_def header_fields_def)

lemma header_fmt_body:
  "slice 20 36 (concat (header_fields n r) @ rest)
     = le_bytes 2 3 @ le_bytes 2 1 @ le_bytes 4 r @ le_bytes 4 (4 * r) @ le_bytes 2 4 @ le_bytes 2 32"
  by (simp add: slice_def header_fields_def)

lemma unpack_fmt_fields:
  "unpack_fmt (le_bytes 2 a @ le_bytes 2 c @ le_bytes 4 r @ le_bytes 4 br @ le_bytes 2 ba @ le_bytes 2 b)
     = Inr \<lparr>fmt_audio_format = a mod 65536, fmt_channels = c mod 65536,
             fmt_sample_rate = r mod 4294967296, fmt_bits_per_sample = b mod 65536\<rparr>"
  by (simp add: unpack_fmt_def slice_def le_uint_le_bytes)

lemma parse_chunks_encoded:
  assumes "B \<noteq> []" "r < 2 ^ 32" "36 + 4 * length B < 2 ^ 32"
  shows "parse_chunks (concat (header_fields (length B) r) @ concat (map float32_tobytes B)) 12 st
       = Inr (True, \<lparr>fmt_audio_format = 3, fmt_channels = 1, fmt_sample_rate = r,
                         fmt_bits_per_sample = 32\<rparr>, concat (map float32_tobytes B))"
proof -
  let ?data = "concat (map float32_tobytes B)"
  let ?out = "concat (header_fields (length B) r) @ ?data"
  let ?info = "\<lparr>fmt_audio_format = 3, fmt_channels = 1, fmt_sample_rate = r,
                fmt_bits_per_sample = 32\<rparr>"
  obtain ff fi where st: "st = (ff, fi)" by (cases st)
  from assms(1) have n: "0 < length B" by simp
  have len: "length ?out = 44 + 4 * length B" by simp
  have sz: "le_uint (le_bytes 4 16) = 16" "le_uint (le_bytes 4 (4 * length B)) = 4 * length B"
    using assms by (simp_all add: le_uint_le_bytes)
  have fmt: "unpack_fmt (slice 20 36 ?out) = Inr ?info"
    using assms by (simp add: header_fmt_body unpack_fmt_fields)
  have payload: "slice 44 (44 + 4 * length B) ?out = ?data"
    by (simp add: slice_def)
  have second: "parse_chunks ?out 36 (True, ?info) = Inr (True, ?info, ?data)"
    using n by (subst parse_chunks.simps) (simp add: header_layout sz Let_def payload)
  have "parse_chunks ?out 12 (ff, fi) = parse_chunks ?out 36 (True, ?info)"
    using n by (subst parse_chunks.simps) (simp add: header_layout sz fmt Let_def)
  with second st show ?thesis by simp
qed

lemma decode_samples_float32:
  assumes "fmt_audio_format info = 3" "fmt_bits_per_sample info = 32"
  shows "decode_samples info (concat (map float32_tobytes B)) = Inr B"
proof -
  have "groups 4 (concat (map float32_tobytes B)) = map float32_tobytes B"
    by (rule groups_concat) simp_all
  then show ?thesis using assms
    by (simp add: decode_samples_def frombuffer_def o_def)
qed

lemma decode_encoded:
  assumes "B \<noteq> []" "r < 2 ^ 32" "36 + 4 * length B < 2 ^ 32"
  shows "decode_wav_fallback mean (concat (header_fields (length B) r) @ concat (map float32_tobytes B))
       = Inr (B, r)"
proof -
  let ?out = "concat (header_fields (length B) r) @ concat (map float32_tobytes B)"
  have "\<not> length ?out < 44" by simp
  moreover have "slice 0 4 ?out = RIFF" "slice 8 12 ?out = WAVE" by (rule header_layout)+
  ultimately show ?thesis
    unfolding decode_wav_fallback_def
    by (simp add: parse_chunks_encoded [OF assms] assms(1) decode_samples_float32 mix_to_mono_def)
qed

lemma decode_encoded_empty:
  assumes "r < 2 ^ 32"
  shows "decode_wav_fallback mean (concat (header_fields 0 r))
       = Inl (ValueError ''Missing fmt or data chunk in WAV'')"
proof -
  let ?out = "concat (header_fields 0 r)"
  let ?info = "\<lparr>fmt_audio_format = 3, fmt_channels = 1, fmt_sample_rate = r,
                fmt_bits_per_sample = 32\<rparr>"
  note hl = header_layout [where rest = "[]" and n = 0 and r = r, unfolded append_Nil2]
  note hb = header_fmt_body [where rest = "[]" and n = 0 and r = r, unfolded append_Nil2]
  have len: "length ?out = 44" by simp
  have sz: "le_uint (le_bytes 4 16) = 16" by (simp add: le_uint_le_bytes)
  have fmt: "unpack_fmt (slice 20 36 ?out) = Inr ?info"
    using assms by (simp add: hb unpack_fmt_fields)
  have second: "parse_chunks ?out 36 (True, ?info) = Inr (True, ?info, [])"
    by (subst parse_chunks.simps) simp
  have "parse_chunks ?out 12 (False, default_fmt) = parse_chunks ?out 36 (True, ?info)"
    by (subst parse_chunks.simps) (simp add: hl sz fmt Let_def)
  with second have p: "parse_chunks ?out 12 (False, default_fmt) = Inr (True, ?info, [])" by simp
  have "slice 0 4 ?out = RIFF" "slice 8 12 ?out = WAVE" by (rule hl)+
  with p len show ?thesis unfolding decode_wav_fallback_def by simp
qed

subsection \<open>The two paths of the codec\<close>

lemma decode_wav_bytes_None: "decode_wav_bytes None mean wav = decode_wav_fallback mean wav"
  by (simp add: decode_wav_bytes_def)

lemma decode_wav_bytes_Some:
  "decode_wav_bytes (Some lib) mean wav =
     (case sf_read lib wav of
        Inl e \<Rightarrow> Inl e
      | Inr (data, sr) \<Rightarrow>
          Inr (case data of Mono samples \<Rightarrow> samples | Frames frames \<Rightarrow> map mean frames, sr))"
  by (simp add: decode_wav_bytes_def)

lemma encode_wav_bytes_None: "encode_wav_bytes None B r = encode_wav_fallback B r"
  by (simp add: encode_wav_bytes_def)

lemma encode_wav_bytes_Some: "encode_wav_bytes (Some lib) B r = sf_write lib B r"
  by (simp add: encode_wav_bytes_def)

subsection \<open>The float32 of a scaled integer\<close>

lemma top_bit_bounds: "0 < a \<Longrightarrow> 2 ^ top_bit a \<le> a \<and> a < 2 ^ Suc (top_bit a)"
proof (induction a rule: top_bit.induct)
  case (1 a)
  show ?case
  proof (cases "a < 2")
    case True
    with "1.prems" have "a = 1" by simp
    then show ?thesis by (simp add: top_bit.simps [of a])
  next
    case False
    then have "0 < a div 2" by simp
    from "1.IH" [OF False this] have ih: "2 ^ top_bit (a div 2) \<le> a div 2"
      "a div 2 < 2 ^ Suc (top_bit (a div 2))" by simp_all
    have tb: "top_bit a = Suc (top_bit (a div 2))" using False by (simp add: top_bit.simps [of a])
    from ih(1) have "2 * 2 ^ top_bit (a div 2) \<le> a" by linarith
    moreover from ih(2) have "a < 2 * 2 ^ Suc (top_bit (a div 2))" by linarith
    ultimately show ?thesis unfolding tb by simp
  qed
qed

lemma mod_digit: "(f::nat) < m \<Longrightarrow> (q * m + f) mod m = f"
  by simp

lemma div_digit: "(f::nat) < m \<Longrightarrow> (q * m + f) div m = q"
  by simp

lemma float32_decode_fields:
  assumes "e < 256" "f < 2 ^ 23" "s \<le> 1"
  shows "unat (of_nat (s * 2 ^ 31 + e * 2 ^ 23 + f) :: float32) = s * 2 ^ 31 + e * 2 ^ 23 + f"
    and "(s * 2 ^ 31 + e * 2 ^ 23 + f) div 2 ^ 31 = s"
    and "(s * 2 ^ 31 + e * 2 ^ 23 + f) div 2 ^ 23 mod 256 = e"
    and "(s * 2 ^ 31 + e * 2 ^ 23 + f) mod 2 ^ 23 = f"
proof -
  from assms have b: "e * 2 ^ 23 + f < 2 ^ 31" by simp
  with assms(3) have "s * 2 ^ 31 + e * 2 ^ 23 + f < 2 ^ 32" by simp
  then show "unat (of_nat (s * 2 ^ 31 + e * 2 ^ 23 + f) :: float32) = s * 2 ^ 31 + e * 2 ^ 23 + f"
    by (subst unat_of_nat) simp
  have e1: "s * 2 ^ 31 + e * 2 ^ 23 + f = s * 2 ^ 31 + (e * 2 ^ 23 + f)" by simp
  show "(s * 2 ^ 31 + e * 2 ^ 23 + f) div 2 ^ 31 = s"
    by (simp only: e1 div_digit [OF b])
  have e2: "s * 2 ^ 31 + e * 2 ^ 23 + f = (s * 256 + e) * 2 ^ 23 + f" by simp
  have e3: "(s * 256 + e) mod 256 = e" by (rule mod_digit [OF assms(1)])
  show "(s * 2 ^ 31 + e * 2 ^ 23 + f) div 2 ^ 23 mod 256 = e"
    by (simp only: e2 div_digit [OF assms(2)] e3)
  show "(s * 2 ^ 31 + e * 2 ^ 23 + f) mod 2 ^ 23 = f"
    by (simp only: e2 mod_digit [OF assms(2)])
qed

lemma scale_cancel: "(x::real) * 2 ^ n / (2 ^ n * B) = x / B"
  by simp

lemma float32_value_of_scaled:
  assumes "\<bar>v\<bar> < 2 ^ 24" "k \<le> 126"
  shows "float32_value (float32_of_scaled v k) = real_of_int v / 2 ^ k"
proof (cases "v = 0")
  case True
  then show ?thesis by (simp add: float32_value_def float32_of_scaled_def)
next
  case False
  define a where "a = nat \<bar>v\<bar>"
  define p where "p = top_bit a"
  define frac where "frac = a * 2 ^ (23 - p) - 2 ^ 23"
  define e where "e = 127 + p - k"
  define s :: nat where "s = (if v < 0 then 1 else 0)"
  from False assms(1) have a: "0 < a" "a < 2 ^ 24" by (simp_all add: a_def)
  from top_bit_bounds [OF a(1)] have tb: "2 ^ p \<le> a" "a < 2 ^ Suc p" by (simp_all add: p_def)
  have p: "p \<le> 23"
  proof (rule ccontr)
    assume "\<not> p \<le> 23"
    then have "24 \<le> p" by simp
    then have "(2::nat) ^ 24 \<le> 2 ^ p" by (rule power_increasing) simp
    with tb(1) a(2) show False by simp
  qed
  have split23: "(2::nat) ^ p * 2 ^ (23 - p) = 2 ^ 23"
    using p by (simp add: power_add [symmetric])
  have lo: "2 ^ 23 \<le> a * 2 ^ (23 - p)"
    using mult_le_mono1 [OF tb(1), of "2 ^ (23 - p)"] by (simp only: split23)
  have "a * 2 ^ (23 - p) < 2 ^ Suc p * 2 ^ (23 - p)"
    using tb(2) by (simp only: mult_less_cancel2) simp
  also have "\<dots> = 2 ^ 24" using split23 by simp
  finally have hi: "a * 2 ^ (23 - p) < 2 ^ 24" .
  from lo hi have frac: "frac < 2 ^ 23" and fr: "2 ^ 23 + frac = a * 2 ^ (23 - p)"
    by (simp_all add: frac_def)
  from p assms(2) have e: "0 < e" "e < 256" by (simp_all add: e_def)
  have s: "s \<le> 1" by (simp add: s_def)
  have enc: "float32_of_scaled v k = of_nat (s * 2 ^ 31 + e * 2 ^ 23 + frac)"
    using False unfolding float32_of_scaled_def Let_def a_def [symmetric] p_def [symmetric]
      frac_def [symmetric] e_def [symmetric] s_def
    by simp
  note df = float32_decode_fields [OF e(2) frac s]
  have val: "float32_value (float32_of_scaled v k)
       = (if s = 1 then - 1 else 1) * (real ((2 ^ 23 + frac) * 2 ^ e) / 2 ^ 150)"
    unfolding enc float32_value_def Let_def df using e(1) by simp
  have ex: "23 - p + e = 150 - k" using p assms(2) by (simp add: e_def)
  have "(2 ^ 23 + frac) * 2 ^ e = a * (2 ^ (23 - p) * 2 ^ e)" by (simp only: fr mult.assoc)
  also have "\<dots> = a * 2 ^ (150 - k)" by (simp only: power_add [symmetric] ex)
  finally have m: "(2 ^ 23 + frac) * 2 ^ e = a * 2 ^ (150 - k)" .
  have pw: "(2::real) ^ 150 = 2 ^ (150 - k) * 2 ^ k"
    using assms(2) by (simp add: power_add [symmetric])
  have ra: "real (a * 2 ^ (150 - k)) = real a * 2 ^ (150 - k)" by simp
  have q: "real (a * 2 ^ (150 - k)) / 2 ^ 150 = real a / 2 ^ k"
    by (simp only: ra pw scale_cancel)
  have sg: "(if s = 1 then - 1 else 1) * real a = real_of_int v"
    by (simp add: s_def a_def)
  have "float32_value (float32_of_scaled v k) = (if s = 1 then - 1 else 1) * (real a / 2 ^ k)"
    by (simp only: val m q)
  also have "\<dots> = ((if s = 1 then - 1 else 1) * real a) / 2 ^ k" by simp
  finally show ?thesis by (simp only: sg)
qed

subsection \<open>Containers as lists of chunks\<close>

text \<open>
  Containers built from chunks: \<open>chunk tag body\<close> is a chunk whose size field is the length
  of its body; \<open>walk_state\<close> is the state of the chunk walk after a list of chunks, none of
  them a \<^verbatim>\<open>data\<close> chunk (\<open>walkable\<close>).
\<close>

definition chunk :: "byte list \<Rightarrow> byte list \<Rightarrow> byte list" where
  "chunk tag body = tag @ le_bytes 4 (length body) @ body"

definition fmt_fields :: "byte list \<Rightarrow> fmt_info" where
  "fmt_fields bs =
     \<lparr>fmt_audio_format = le_uint (slice 0 2 bs), fmt_channels = le_uint (slice 2 4 bs),
      fmt_sample_rate = le_uint (slice 4 8 bs), fmt_bits_per_sample = le_uint (slice 14 16 bs)\<rparr>"

fun walk_state :: "(byte list \<times> byte list) list \<Rightarrow> bool \<times> fmt_info \<Rightarrow> bool \<times> fmt_info" where
  "walk_state [] st = st"
| "walk_state ((tag, body) # cs) st =
     walk_state cs (if tag = fmt_tag then (True, fmt_fields (take 16 body)) else st)"

fun walkable :: "(byte list \<times> byte list) list \<Rightarrow> bool" where
  "walkable [] = True"
| "walkable ((tag, body) # cs) =
     (length tag = 4 \<and> tag \<noteq> data_tag \<and> length body < 2 ^ 32
      \<and> (tag = fmt_tag \<longrightarrow> 16 \<le> length body) \<and> walkable cs)"

definition chunks_bytes :: "(byte list \<times> byte list) list \<Rightarrow> byte list" where
  "chunks_bytes cs = concat (map (\<lambda>(tag, body). chunk tag body) cs)"

lemma chunks_bytes_simps [simp]:
  "chunks_bytes [] = []"
  "chunks_bytes ((tag, body) # cs) = chunk tag body @ chunks_bytes cs"
  by (simp_all add: chunks_bytes_def)

lemma length_chunk [simp]: "length (chunk tag body) = length tag + 4 + length body"
  by (simp add: chunk_def)

lemma unpack_fmt_16: "length bs = 16 \<Longrightarrow> unpack_fmt bs = Inr (fmt_fields bs)"
  by (simp add: unpack_fmt_def fmt_fields_def)

lemma parse_chunks_fmt:
  assumes "length body < 2 ^ 32" "16 \<le> length body" "rest \<noteq> []"
  shows "parse_chunks (pre @ chunk fmt_tag body @ rest) (length pre) st
       = parse_chunks (pre @ chunk fmt_tag body @ rest) (length pre + length (chunk fmt_tag body))
           (True, fmt_fields (take 16 body))"
proof -
  let ?wav = "pre @ chunk fmt_tag body @ rest"
  obtain ff fi where st: "st = (ff, fi)" by (cases st)
  from assms(3) have r: "0 < length rest" by simp
  have guard: "length pre + 8 < length ?wav" using r by simp
  have id: "slice (length pre) (length pre + 4) ?wav = fmt_tag"
    by (simp add: slice_def chunk_def)
  have sz: "le_uint (slice (length pre + 4) (length pre + 8) ?wav) = length body"
    using assms(1) by (simp add: slice_def chunk_def le_uint_le_bytes)
  have pos: "length pre + 8 + length body = length pre + length (chunk fmt_tag body)"
    by simp
  have "slice (length pre + 8) (length pre + 8 + 16) ?wav = take 16 body"
    using assms(2) by (simp add: slice_def chunk_def)
  moreover have "unpack_fmt (take 16 body) = Inr (fmt_fields (take 16 body))"
    using assms(2) by (intro unpack_fmt_16) simp
  ultimately have u: "unpack_fmt (slice (length pre + 8) (length pre + 8 + 16) ?wav)
      = Inr (fmt_fields (take 16 body))" by simp
  show ?thesis unfolding st
    by (subst parse_chunks.simps) (simp only: guard id sz u pos Let_def if_True sum.case simp_thms)
qed

lemma parse_chunks_other:
  assumes "length tag = 4" "tag \<noteq> data_tag" "tag \<noteq> fmt_tag" "length body < 2 ^ 32"
    "rest \<noteq> []"
  shows "parse_chunks (pre @ chunk tag body @ rest) (length pre) st
       = parse_chunks (pre @ chunk tag body @ rest) (length pre + length (chunk tag body)) st"
proof -
  let ?wav = "pre @ chunk tag body @ rest"
  obtain ff fi where st: "st = (ff, fi)" by (cases st)
  from assms(5) have r: "0 < length rest" by simp
  have guard: "length pre + 8 < length ?wav" using assms(1) r by simp
  have id: "slice (length pre) (length pre + 4) ?wav = tag"
    using assms(1) by (simp add: slice_def chunk_def)
  have sz: "le_uint (slice (length pre + 4) (length pre + 8) ?wav) = length body"
    using assms(1,4) by (simp add: slice_def chunk_def le_uint_le_bytes)
  have pos: "length pre + 8 + length body = length pre + length (chunk tag body)"
    using assms(1) by simp
  show ?thesis unfolding st
    by (subst parse_chunks.simps)
       (simp only: guard id sz pos assms(2,3) Let_def if_True if_False simp_thms)
qed

lemma parse_chunks_step:
  assumes "length tag = 4" "tag \<noteq> data_tag" "length body < 2 ^ 32"
    "tag = fmt_tag \<longrightarrow> 16 \<le> length body" "rest \<noteq> []"
  shows "parse_chunks (pre @ chunk tag body @ rest) (length pre) st
       = parse_chunks (pre @ chunk tag body @ rest) (length pre + length (chunk tag body))
           (if tag = fmt_tag then (True, fmt_fields (take 16 body)) else st)"
proof (cases "tag = fmt_tag")
  case True
  with assms(4) have "16 \<le> length body" by simp
  from parse_chunks_fmt [OF assms(3) this assms(5)] True show ?thesis by simp
next
  case False
  from parse_chunks_other [OF assms(1,2) False assms(3,5)] False show ?thesis by simp
qed

lemma walk_chunks:
  assumes "walkable cs" "rest \<noteq> []"
  shows "parse_chunks (pre @ chunks_bytes cs @ rest) (length pre) st
       = parse_chunks (pre @ chunks_bytes cs @ rest) (length pre + length (chunks_bytes cs))
           (walk_state cs st)"
  using assms(1)
proof (induction cs arbitrary: pre st)
  case Nil
  show ?case by simp
next
  case (Cons c cs)
  obtain tag body where c: "c = (tag, body)" by (cases c)
  from Cons.prems c have ok: "length tag = 4" "tag \<noteq> data_tag" "length body < 2 ^ 32"
    "tag = fmt_tag \<longrightarrow> 16 \<le> length body" and w: "walkable cs" by simp_all
  let ?st = "if tag = fmt_tag then (True, fmt_fields (take 16 body)) else st"
  have ne: "chunks_bytes cs @ rest \<noteq> []" using assms(2) by simp
  have wav: "pre @ chunks_bytes (c # cs) @ rest = pre @ chunk tag body @ (chunks_bytes cs @ rest)"
    by (simp add: c)
  have wav': "pre @ chunks_bytes (c # cs) @ rest = (pre @ chunk tag body) @ chunks_bytes cs @ rest"
    by (simp add: c)
  have "parse_chunks (pre @ chunks_bytes (c # cs) @ rest) (length pre) st
      = parse_chunks (pre @ chunks_bytes (c # cs) @ rest) (length pre + length (chunk tag body)) ?st"
    unfolding wav by (rule parse_chunks_step [OF ok ne])
  also have "\<dots> = parse_chunks ((pre @ chunk tag body) @ chunks_bytes cs @ rest)
                      (length (pre @ chunk tag body)) ?st"
    by (simp only: wav' length_append)
  also have "\<dots> = parse_chunks ((pre @ chunk tag body) @ chunks_bytes cs @ rest)
      (length (pre @ chunk tag body) + length (chunks_bytes cs)) (walk_state cs ?st)"
    by (rule Cons.IH [OF w])
  finally show ?case by (simp add: c wav' ac_simps)
qed

lemma parse_data_chunk:
  assumes "payload \<noteq> []" "declared < 2 ^ 32"
  shows "parse_chunks (pre @ data_tag @ le_bytes 4 declared @ payload) (length pre) (ff, fi)
       = Inr (ff, fi, take declared payload)"
proof -
  let ?wav = "pre @ data_tag @ le_bytes 4 declared @ payload"
  from assms(1) have r: "0 < length payload" by simp
  have guard: "length pre + 8 < length ?wav" using r by simp
  have id: "slice (length pre) (length pre + 4) ?wav = data_tag"
    by (simp add: slice_def)
  have sz: "le_uint (slice (length pre + 4) (length pre + 8) ?wav) = declared"
    using assms(2) by (simp add: slice_def le_uint_le_bytes)
  have pl: "slice (length pre + 8) (length pre + 8 + declared) ?wav = take declared payload"
    by (simp add: slice_def)
  show ?thesis
    by (subst parse_chunks.simps)
       (simp only: guard id sz pl Let_def if_True if_False fmt_tag_neq_data_tag simp_thms)
qed

definition container :: "byte list \<Rightarrow> (byte list \<times> byte list) list \<Rightarrow> nat \<Rightarrow> byte list \<Rightarrow> byte list" where
  "container riff_size cs declared payload =
     RIFF @ riff_size @ WAVE @ chunks_bytes cs @ data_tag @ le_bytes 4 declared @ payload"

definition decode_payload ::
  "(float32 list \<Rightarrow> float32) \<Rightarrow> fmt_info \<Rightarrow> byte list \<Rightarrow> exn + (float32 list \<times> nat)" where
  "decode_payload mean info data_bytes =
     (case decode_samples info data_bytes of
        Inl e \<Rightarrow> Inl e
      | Inr samples \<Rightarrow>
          (case mix_to_mono mean (fmt_channels info) samples of
             Inl e \<Rightarrow> Inl e
           | Inr mixed \<Rightarrow> Inr (mixed, fmt_sample_rate info)))"

lemma decode_wav_fallback_parsed:
  assumes "44 \<le> length wav" "slice 0 4 wav = RIFF" "slice 8 12 wav = WAVE"
    and "parse_chunks wav 12 (False, default_fmt) = Inr (found, info, data)"
  shows "decode_wav_fallback mean wav
       = (if \<not> found \<or> data = [] then Inl (ValueError ''Missing fmt or data chunk in WAV'')
          else decode_payload mean info data)"
  using assms by (simp add: decode_wav_fallback_def decode_payload_def)

lemma parse_container:
  assumes "length riff_size = 4" "walkable cs" "payload \<noteq> []" "declared < 2 ^ 32"
  shows "parse_chunks (container riff_size cs declared payload) 12 st
       = Inr (fst (walk_state cs st), snd (walk_state cs st), take declared payload)"
proof -
  let ?pre = "RIFF @ riff_size @ WAVE"
  let ?rest = "data_tag @ le_bytes 4 declared @ payload"
  define W where "W = container riff_size cs declared payload"
  have lp: "length ?pre = 12" using assms(1) by simp
  have l: "12 + length (chunks_bytes cs) = length (?pre @ chunks_bytes cs)"
    using assms(1) by simp
  have ne: "?rest \<noteq> []" using assms(3) by simp
  have c1: "W = ?pre @ chunks_bytes cs @ ?rest"
    by (simp add: W_def container_def)
  have c2: "W = (?pre @ chunks_bytes cs) @ data_tag @ le_bytes 4 declared @ payload"
    by (simp add: W_def container_def)
  have "parse_chunks W (length ?pre) st
      = parse_chunks W (length ?pre + length (chunks_bytes cs)) (walk_state cs st)"
    unfolding c1 by (rule walk_chunks [OF assms(2) ne])
  then have s1: "parse_chunks W 12 st
      = parse_chunks W (length (?pre @ chunks_bytes cs)) (fst (walk_state cs st), snd (walk_state cs st))"
    by (simp only: lp l prod.collapse)
  have s2: "parse_chunks W (length (?pre @ chunks_bytes cs)) (fst (walk_state cs st), snd (walk_state cs st))
      = Inr (fst (walk_state cs st), snd (walk_state cs st), take declared payload)"
    unfolding c2 by (rule parse_data_chunk [OF assms(3,4)])
  from s1 s2 show ?thesis unfolding W_def by (rule trans)
qed

lemma container_riff:
  "slice 0 4 (container riff_size cs declared payload) = RIFF"
  by (simp add: container_def slice_def)

lemma container_wave:
  assumes "length riff_size = 4"
  shows "slice 8 12 (container riff_size cs declared payload) = WAVE"
proof -
  have "drop 8 ((RIFF @ riff_size) @ WAVE @ rest) = WAVE @ rest" for rest
    using assms by (subst drop_append) simp
  then have "drop 8 (container riff_size cs declared payload)
      = WAVE @ chunks_bytes cs @ data_tag @ le_bytes 4 declared @ payload"
    by (simp add: container_def)
  then show ?thesis by (simp add: slice_def)
qed

lemma length_container:
  "length (container riff_size cs declared payload)
     = 16 + length riff_size + length (chunks_bytes cs) + length payload"
  by (simp add: container_def)

lemma walk_state_found:
  "walkable cs \<Longrightarrow> fst (walk_state cs st) \<Longrightarrow> fst st \<or> 24 \<le> length (chunks_bytes cs)"
proof (induction cs arbitrary: st)
  case Nil
  then show ?case by simp
next
  case (Cons c cs)
  obtain tag body where c: "c = (tag, body)" by (cases c)
  show ?case
  proof (cases "tag = fmt_tag")
    case True
    with Cons.prems(1) c have "16 \<le> length body" "length tag = 4" by simp_all
    then show ?thesis by (simp add: c)
  next
    case False
    with Cons.prems c have "walkable cs" "fst (walk_state cs st)" by simp_all
    from Cons.IH [OF this] show ?thesis by (auto simp: c)
  qed
qed

lemma decode_container:
  assumes "length riff_size = 4" "walkable cs" "payload \<noteq> []" "declared < 2 ^ 32"
    and "fst (walk_state cs (False, default_fmt))" and "0 < declared"
  shows "decode_wav_fallback mean (container riff_size cs declared payload)
       = decode_payload mean (snd (walk_state cs (False, default_fmt))) (take declared payload)"
proof -
  from walk_state_found [OF assms(2,5)] have "24 \<le> length (chunks_bytes cs)" by simp
  moreover from assms(3) have "0 < length payload" by simp
  ultimately have len: "44 \<le> length (container riff_size cs declared payload)"
    using assms(1) by (simp add: length_container)
  from assms(3,6) have ne: "take declared payload \<noteq> []" by (cases payload) auto
  from decode_wav_fallback_parsed [OF len container_riff container_wave [OF assms(1)]
      parse_container [OF assms(1-4)]] assms(5) ne
  show ?thesis by simp
qed

subsection \<open>Sample formats\<close>

lemma float32_frombytes_tobytes:
  assumes "length b = 4"
  shows "float32_tobytes (float32_frombytes b) = b"
proof -
  have "le_uint b < 256 ^ length b" by (rule le_uint_bound)
  with assms have "le_uint b < 2 ^ 32" by simp
  then have "unat (of_nat (le_uint b) :: float32) = le_uint b"
    by (subst unat_of_nat) simp
  then have "float32_tobytes (float32_frombytes b) = le_bytes (length b) (le_uint b)"
    by (simp add: float32_tobytes_def float32_frombytes_def assms)
  then show ?thesis by (simp only: le_bytes_le_uint)
qed

lemma length_group_slice:
  assumes "i < length xs div k"
  shows "length (slice (i * k) ((i + 1) * k) xs) = k"
proof -
  from assms have "Suc i \<le> length xs div k" by simp
  then have "Suc i * k \<le> length xs div k * k" by (rule mult_le_mono1)
  also have "\<dots> \<le> length xs" by simp
  finally have "(i + 1) * k \<le> length xs" by simp
  then show ?thesis by (simp add: slice_def)
qed

lemma signed_of_bound:
  assumes "n < 2 ^ bits" "0 < bits"
  shows "\<bar>signed_of bits n\<bar> \<le> 2 ^ (bits - 1)"
proof -
  from assms(2) have p: "(2::int) ^ bits = 2 * 2 ^ (bits - 1)"
    by (cases bits) simp_all
  from assms(1) have "int n < 2 ^ bits" by (metis of_nat_less_iff of_nat_numeral of_nat_power)
  with p show ?thesis
    unfolding signed_of_def
    by (auto simp: abs_if not_less)
qed

lemma pcm_value:
  assumes "j \<le> 126" "i < length data div k" "0 < k" "k \<le> 3"
  shows "float32_value (float32_of_scaled (signed_of (8 * k) (le_uint (slice (i * k) ((i + 1) * k) data))) j)
       = real_of_int (signed_of (8 * k) (le_uint (slice (i * k) ((i + 1) * k) data))) / 2 ^ j"
proof -
  let ?b = "slice (i * k) ((i + 1) * k) data"
  have "le_uint ?b < 256 ^ length ?b" by (rule le_uint_bound)
  then have "le_uint ?b < 256 ^ k"
    by (simp only: length_group_slice [OF assms(2)])
  moreover have "(256::nat) ^ k = 2 ^ (8 * k)" by (simp add: power_mult)
  ultimately have n: "le_uint ?b < 2 ^ (8 * k)" by (simp only:)
  from assms(3) have "0 < 8 * k" by simp
  from signed_of_bound [OF n this]
  have "\<bar>signed_of (8 * k) (le_uint ?b)\<bar> \<le> 2 ^ (8 * k - 1)" .
  also have "(2::int) ^ (8 * k - 1) \<le> 2 ^ 23"
    using assms(4) by (intro power_increasing) simp_all
  finally have "\<bar>signed_of (8 * k) (le_uint ?b)\<bar> < 2 ^ 24" by simp
  from float32_value_of_scaled [OF this assms(1)] show ?thesis .
qed

lemma decode_samples_float32_bytes:
  assumes "fmt_audio_format info = 3" "fmt_bits_per_sample info = 32"
  shows "decode_samples info data
       = (if length data mod 4 = 0 then Inr (map float32_frombytes (groups 4 data))
          else Inl (ValueError ''buffer size must be a multiple of element size''))"
  using assms by (simp add: decode_samples_def frombuffer_def)

lemma decode_samples_pcm16:
  assumes "fmt_audio_format info = 1" "fmt_bits_per_sample info = 16"
  shows "decode_samples info data
       = (if length data mod 2 = 0
          then Inr (map (\<lambda>b. float32_of_scaled (signed_of 16 (le_uint b)) 15) (groups 2 data))
          else Inl (ValueError ''buffer size must be a multiple of element size''))"
  using assms by (simp add: decode_samples_def frombuffer_def)

lemma decode_samples_pcm24:
  assumes "fmt_audio_format info = 1" "fmt_bits_per_sample info = 24"
  shows "decode_samples info data
       = Inr (map (\<lambda>i. float32_of_scaled (signed_of 24 (le_uint (slice (i * 3) ((i + 1) * 3) data))) 23)
                [0..<length data div 3])"
  using assms by (simp add: decode_samples_def Let_def)

lemma decode_samples_unsupported:
  assumes "\<not> (fmt_audio_format info = 3 \<and> fmt_bits_per_sample info = 32)"
    "\<not> (fmt_audio_format info = 1 \<and> fmt_bits_per_sample info = 16)"
    "\<not> (fmt_audio_format info = 1 \<and> fmt_bits_per_sample info = 24)"
  shows "decode_samples info data
       = Inl (UnsupportedWavFormat (fmt_audio_format info) (fmt_bits_per_sample info))"
  using assms by (auto simp: decode_samples_def)

definition fmt_body :: "nat \<Rightarrow> nat \<Rightarrow> nat \<Rightarrow> nat \<Rightarrow> byte list" where
  "fmt_body a c r b =
     le_bytes 2 a @ le_bytes 2 c @ le_bytes 4 r @ le_bytes 4 (r * c * (b div 8))
     @ le_bytes 2 (c * (b div 8)) @ le_bytes 2 b"

lemma length_fmt_body [simp]: "length (fmt_body a c r b) = 16"
  by (simp add: fmt_body_def)

lemma fmt_fields_body:
  assumes "a < 65536" "c < 65536" "r < 4294967296" "b < 65536"
  shows "fmt_fields (take 16 (fmt_body a c r b))
       = \<lparr>fmt_audio_format = a, fmt_channels = c, fmt_sample_rate = r, fmt_bits_per_sample = b\<rparr>"
  using assms by (simp add: fmt_fields_def fmt_body_def slice_def le_uint_le_bytes)

lemma walk_fmt_body:
  assumes "a < 65536" "c < 65536" "r < 4294967296" "b < 65536"
  shows "walkable [(fmt_tag, fmt_body a c r b)]"
    and "walk_state [(fmt_tag, fmt_body a c r b)] st
       = (True, \<lparr>fmt_audio_format = a, fmt_channels = c, fmt_sample_rate = r,
                  fmt_bits_per_sample = b\<rparr>)"
  using fmt_fields_body [OF assms] by simp_all

lemma take_drop_nth:
  assumes "n + k \<le> length xs"
  shows "take k (drop n xs) = map (\<lambda>j. xs ! (n + j)) [0..<k]"
  using assms by (intro nth_equalityI) simp_all

lemma le_uint_slice2:
  assumes "i < length data div 2"
  shows "int (le_uint (slice (i * 2) ((i + 1) * 2) data))
       = int (unat (data ! (2 * i))) + 256 * int (unat (data ! (2 * i + 1)))"
proof -
  from assms have "i * 2 + 2 \<le> length data" by simp
  from take_drop_nth [OF this]
  have "slice (i * 2) ((i + 1) * 2) data = [data ! (i * 2), data ! (i * 2 + 1)]"
    by (simp add: slice_def numeral_2_eq_2)
  then show ?thesis by (simp add: mult.commute)
qed

lemma le_uint_slice3:
  assumes "i < length data div 3"
  shows "int (le_uint (slice (i * 3) ((i + 1) * 3) data))
       = int (unat (data ! (3 * i))) + 256 * int (unat (data ! (3 * i + 1)))
         + 65536 * int (unat (data ! (3 * i + 2)))"
proof -
  from assms have "i * 3 + 3 \<le> length data" by simp
  from take_drop_nth [OF this]
  have "slice (i * 3) ((i + 1) * 3) data = [data ! (i * 3), data ! (i * 3 + 1), data ! (i * 3 + 2)]"
    by (simp add: slice_def numeral_3_eq_3)
  then show ?thesis by (simp add: mult.commute)
qed

lemma le_uint_slice4:
  assumes "i < length data div 4"
  shows "int (le_uint (slice (i * 4) ((i + 1) * 4) data))
       = int (unat (data ! (4 * i))) + 256 * int (unat (data ! (4 * i + 1)))
         + 65536 * int (unat (data ! (4 * i + 2))) + 16777216 * int (unat (data ! (4 * i + 3)))"
proof -
  from assms have "i * 4 + 4 \<le> length data" by simp
  from take_drop_nth [OF this]
  have "slice (i * 4) ((i + 1) * 4) data
      = [data ! (i * 4), data ! (i * 4 + 1), data ! (i * 4 + 2), data ! (i * 4 + 3)]"
    by (simp add: slice_def eval_nat_numeral)
  then show ?thesis by (simp add: mult.commute)
qed

lemma uint_float32_frombytes:
  assumes "length b = 4"
  shows "uint (float32_frombytes b) = int (le_uint b)"
proof -
  have "le_uint b < 256 ^ length b" by (rule le_uint_bound)
  with assms have "le_uint b < 2 ^ 32" by simp
  then have "unat (of_nat (le_uint b) :: float32) = le_uint b"
    by (subst unat_of_nat) simp
  then show ?thesis unfolding float32_frombytes_def by (simp only: uint_nat)
qed

lemma decode_payload_mixdown:
  "decode_payload mean info data
     = bind_exn (decode_samples info data) (\<lambda>samples.
         if 1 < fmt_channels info then
           (if length samples mod fmt_channels info = 0
            then Inr (map (\<lambda>j. mean (take (fmt_channels info) (drop (j * fmt_channels info) samples)))
                        [0..<length samples div fmt_channels info], fmt_sample_rate info)
            else Inl (ValueError ''cannot reshape array''))
         else Inr (samples, fmt_sample_rate info))"
  by (simp add: decode_payload_def bind_exn_def mix_to_mono_def groups_def slice_def
      split: sum.splits)

lemma fmt_container:
  fixes n :: nat
  assumes "a < 65536" "c < 65536" "r < 4294967296" "b < 65536"
    and "payload \<noteq> []" "declared < 2 ^ 32"
  defines "wav \<equiv> container (le_bytes 4 n) [(fmt_tag, fmt_body a c r b)] declared payload"
  shows "44 \<le> length wav" and "slice 0 4 wav = RIFF" and "slice 8 12 wav = WAVE"
    and "parse_chunks wav 12 (False, default_fmt)
       = Inr (True, \<lparr>fmt_audio_format = a, fmt_channels = c, fmt_sample_rate = r,
                        fmt_bits_per_sample = b\<rparr>, take declared payload)"
proof -
  from assms(5) have "0 < length payload" by simp
  then show "44 \<le> length wav" by (simp add: wav_def length_container)
  show "slice 0 4 wav = RIFF" unfolding wav_def by (rule container_riff)
  show "slice 8 12 wav = WAVE" unfolding wav_def by (rule container_wave) simp
  have w: "walkable [(fmt_tag, fmt_body a c r b)]" by (rule walk_fmt_body [OF assms(1-4)])
  have s: "walk_state [(fmt_tag, fmt_body a c r b)] (False, default_fmt)
      = (True, \<lparr>fmt_audio_format = a, fmt_channels = c, fmt_sample_rate = r,
                 fmt_bits_per_sample = b\<rparr>)"
    by (rule walk_fmt_body [OF assms(1-4)])
  have "parse_chunks wav 12 (False, default_fmt)
      = Inr (fst (walk_state [(fmt_tag, fmt_body a c r b)] (False, default_fmt)),
             snd (walk_state [(fmt_tag, fmt_body a c r b)] (False, default_fmt)),
             take declared payload)"
    unfolding wav_def by (rule parse_container [OF _ w assms(5,6)]) simp
  then show "parse_chunks wav 12 (False, default_fmt)
       = Inr (True, \<lparr>fmt_audio_format = a, fmt_channels = c, fmt_sample_rate = r,
                        fmt_bits_per_sample = b\<rparr>, take declared payload)"
    by (simp only: s fst_conv snd_conv)
qed

text \<open>
  Containers of one \<^verbatim>\<open>fmt \<close> chunk and one \<^verbatim>\<open>data\<close> chunk, one per sample format. The 16-bit
  payload holds \<open>0x4000\<close> and \<open>0x8000\<close>, the 24-bit payload \<open>0x400000\<close> and \<open>0x800000\<close>: the
  values \<open>0.5\<close> and \<open>-1.0\<close>, float32 patterns \<open>0x3F000000\<close> and \<open>0xBF800000\<close>. The 8-bit payload
  holds \<open>0xC0\<close>, which is \<open>0.5\<close> in unsigned 8-bit PCM; \<open>pcm8_soundfile\<close> stands for the library
  where it is installed, reading that file.
\<close>

definition example_float32 :: "byte list" where
  "example_float32 = container (le_bytes 4 40) [(fmt_tag, fmt_body 3 1 48000 32)] 4 [0, 0, 128, 63]"

definition example_pcm16 :: "byte list" where
  "example_pcm16 = container (le_bytes 4 40) [(fmt_tag, fmt_body 1 1 48000 16)] 4 [0, 64, 0, 128]"

definition example_pcm24 :: "byte list" where
  "example_pcm24 =
     container (le_bytes 4 42) [(fmt_tag, fmt_body 1 1 48000 24)] 6 [0, 0, 64, 0, 0, 128]"

definition example_stereo16 :: "byte list" where
  "example_stereo16 = container (le_bytes 4 40) [(fmt_tag, fmt_body 1 2 48000 16)] 4 [0, 64, 0, 128]"

definition example_pcm8 :: "byte list" where
  "example_pcm8 = container (le_bytes 4 37) [(fmt_tag, fmt_body 1 1 8000 8)] 1 [192]"

definition pcm8_soundfile :: soundfile where
  "pcm8_soundfile =
     \<lparr>sf_read = (\<lambda>bs. if bs = example_pcm8 then Inr (Mono [0x3F000000], 8000)
                       else Inl (LibsndfileError ''Format not recognised'')),
      sf_write = encode_wav_fallback\<rparr>"

text \<open>
  Claim C5, as stated, fails where \<^verbatim>\<open>soundfile\<close> is installed: the library is tried first and
  decodes the formats it knows, so a well-formed container with the pair (1, 8) is decoded
  and no unsupported-format error is raised.
\<close>

theorem decode_wav_bytes_soundfile_pcm8:
  "44 \<le> length example_pcm8 \<and> slice 0 4 example_pcm8 = RIFF \<and> slice 8 12 example_pcm8 = WAVE
   \<and> parse_chunks example_pcm8 12 (False, default_fmt)
       = Inr (True, \<lparr>fmt_audio_format = 1, fmt_channels = 1, fmt_sample_rate = 8000,
                        fmt_bits_per_sample = 8\<rparr>, [192])
   \<and> decode_wav_bytes (Some pcm8_soundfile) (\<lambda>c. 0) example_pcm8 = Inr ([0x3F000000], 8000)"
proof -
  note c = fmt_container [of 1 1 8000 8 "[192]" 1 37, folded example_pcm8_def]
  have "decode_wav_bytes (Some pcm8_soundfile) (\<lambda>c. 0) example_pcm8 = Inr ([0x3F000000], 8000)"
    by (simp add: decode_wav_bytes_Some pcm8_soundfile_def)
  with c show ?thesis by simp
qed

text \<open>
  Claim C5, amended. When \<^verbatim>\<open>soundfile\<close> cannot be imported: for a container that passes the
  header checks and whose chunk walk finds a \<^verbatim>\<open>fmt \<close> chunk and a non-empty \<^verbatim>\<open>data\<close> payload,
  \<open>decode_wav_bytes\<close> decodes the payload by the (format code, bits per sample) pair of the
  \<^verbatim>\<open>fmt \<close> chunk. For (3, 32) the payload is reinterpreted: the bit pattern of sample \<open>i\<close> is the
  little-endian value of the payload bytes \<open>4i .. 4i+3\<close>. For (1, 16) sample \<open>i\<close> is the
  little-endian 16-bit integer at bytes \<open>2i, 2i+1\<close>, read as two's complement (\<open>v - 65536\<close> from
  \<open>32768\<close> up), divided by 32768. For (1, 24) sample \<open>i\<close> is the little-endian integer at bytes
  \<open>3i .. 3i+2\<close>, sign-extended (\<open>v - 16777216\<close> from \<open>8388608\<close> up), divided by 8388608. Every
  other pair raises the unsupported-format error. A float32 or 16-bit payload that is not a
  whole number of samples makes \<^verbatim>\<open>np.frombuffer\<close> raise. With more than one channel each
  frame of \<open>channels\<close> consecutive samples is replaced by its mean (\<^verbatim>\<open>reshape\<close> raises when the
  samples are not whole frames). When \<^verbatim>\<open>soundfile\<close> is imported the result is that of
  \<^verbatim>\<open>sf.read\<close>, mixed to mono, for every format the library reads.
\<close>

theorem decode_wav_bytes_formats:
  fixes mean :: "float32 list \<Rightarrow> float32" and wav data :: "byte list" and info :: fmt_info
    and lib :: soundfile and f b c :: nat and byte :: "nat \<Rightarrow> int"
    and mixdown :: "float32 list \<Rightarrow> exn + (float32 list \<times> nat)"
  assumes "44 \<le> length wav" "slice 0 4 wav = RIFF" "slice 8 12 wav = WAVE"
    and "parse_chunks wav 12 (False, default_fmt) = Inr (True, info, data)" and "data \<noteq> []"
  defines "f \<equiv> fmt_audio_format info" and "b \<equiv> fmt_bits_per_sample info"
    and "c \<equiv> fmt_channels info"
    and "byte \<equiv> \<lambda>k. int (unat (data ! k))"
    and "mixdown \<equiv> \<lambda>samples.
           if 1 < c then
             (if length samples mod c = 0
              then Inr (map (\<lambda>j. mean (take c (drop (j * c) samples))) [0..<length samples div c],
                        fmt_sample_rate info)
              else Inl (ValueError ''cannot reshape array''))
           else Inr (samples, fmt_sample_rate info)"
  shows "(f = 3 \<and> b = 32 \<longrightarrow>
            (if length data mod 4 = 0
             then \<exists>samples. decode_wav_bytes None mean wav = mixdown samples
                    \<and> length samples = length data div 4
                    \<and> (\<forall>i < length samples. uint (samples ! i)
                           = byte (4 * i) + 256 * byte (4 * i + 1) + 65536 * byte (4 * i + 2)
                             + 16777216 * byte (4 * i + 3))
             else decode_wav_bytes None mean wav
                    = Inl (ValueError ''buffer size must be a multiple of element size'')))
     \<and> (f = 1 \<and> b = 16 \<longrightarrow>
            (if length data mod 2 = 0
             then \<exists>samples. decode_wav_bytes None mean wav = mixdown samples
                    \<and> length samples = length data div 2
                    \<and> (\<forall>i < length samples. float32_value (samples ! i)
                           = (let v = byte (2 * i) + 256 * byte (2 * i + 1)
                              in real_of_int (if v < 32768 then v else v - 65536) / 32768))
             else decode_wav_bytes None mean wav
                    = Inl (ValueError ''buffer size must be a multiple of element size'')))
     \<and> (f = 1 \<and> b = 24 \<longrightarrow>
            (\<exists>samples. decode_wav_bytes None mean wav = mixdown samples
                \<and> length samples = length data div 3
                \<and> (\<forall>i < length samples. float32_value (samples ! i)
                       = (let v = byte (3 * i) + 256 * byte (3 * i + 1) + 65536 * byte (3 * i + 2)
                          in real_of_int (if v < 8388608 then v else v - 16777216) / 8388608))))
     \<and> (\<not> (f = 3 \<and> b = 32) \<and> \<not> (f = 1 \<and> b = 16) \<and> \<not> (f = 1 \<and> b = 24) \<longrightarrow>
          decode_wav_bytes None mean wav = Inl (UnsupportedWavFormat f b))
     \<and> decode_wav_bytes (Some lib) mean wav =
         (case sf_read lib wav of
            Inl e \<Rightarrow> Inl e
          | Inr (arr, sr) \<Rightarrow>
              Inr (case arr of Mono samples \<Rightarrow> samples | Frames frames \<Rightarrow> map mean frames, sr))"
proof (intro conjI impI)
  have main: "decode_wav_bytes None mean wav = bind_exn (decode_samples info data) mixdown"
    using decode_wav_fallback_parsed [OF assms(1-4), of mean] assms(5)
    unfolding mixdown_def c_def decode_wav_bytes_None by (simp add: decode_payload_mixdown)
  show "decode_wav_bytes (Some lib) mean wav =
         (case sf_read lib wav of
            Inl e \<Rightarrow> Inl e
          | Inr (arr, sr) \<Rightarrow>
              Inr (case arr of Mono samples \<Rightarrow> samples | Frames frames \<Rightarrow> map mean frames, sr))"
    by (rule decode_wav_bytes_Some)
  {
    assume "\<not> (f = 3 \<and> b = 32) \<and> \<not> (f = 1 \<and> b = 16) \<and> \<not> (f = 1 \<and> b = 24)"
    then have "decode_samples info data = Inl (UnsupportedWavFormat f b)"
      unfolding f_def b_def by (intro decode_samples_unsupported) simp_all
    then show "decode_wav_bytes None mean wav = Inl (UnsupportedWavFormat f b)"
      unfolding main by (simp add: bind_exn_def)
  }
  {
    assume a: "f = 3 \<and> b = 32"
    let ?s = "map float32_frombytes (groups 4 data)"
    have d: "decode_samples info data
        = (if length data mod 4 = 0 then Inr ?s
           else Inl (ValueError ''buffer size must be a multiple of element size''))"
      using a decode_samples_float32_bytes [of info data] by (simp add: f_def b_def)
    have v: "uint (?s ! i) = byte (4 * i) + 256 * byte (4 * i + 1) + 65536 * byte (4 * i + 2)
                             + 16777216 * byte (4 * i + 3)"
      if "i < length ?s" for i
    proof -
      from that have i: "i < length data div 4" by simp
      then have "?s ! i = float32_frombytes (slice (i * 4) ((i + 1) * 4) data)"
        by (simp add: nth_groups)
      then have "uint (?s ! i) = int (le_uint (slice (i * 4) ((i + 1) * 4) data))"
        by (simp only: uint_float32_frombytes [OF length_group_slice [OF i]])
      then show ?thesis by (simp only: le_uint_slice4 [OF i] byte_def)
    qed
    show "if length data mod 4 = 0
          then \<exists>samples. decode_wav_bytes None mean wav = mixdown samples
                 \<and> length samples = length data div 4
                 \<and> (\<forall>i < length samples. uint (samples ! i)
                        = byte (4 * i) + 256 * byte (4 * i + 1) + 65536 * byte (4 * i + 2)
                          + 16777216 * byte (4 * i + 3))
          else decode_wav_bytes None mean wav
                 = Inl (ValueError ''buffer size must be a multiple of element size'')"
    proof (cases "length data mod 4 = 0")
      case True
      with d main have "decode_wav_bytes None mean wav = mixdown ?s" by (simp add: bind_exn_def)
      moreover have "length ?s = length data div 4" by simp
      ultimately have "\<exists>samples. decode_wav_bytes None mean wav = mixdown samples
                 \<and> length samples = length data div 4
                 \<and> (\<forall>i < length samples. uint (samples ! i)
                        = byte (4 * i) + 256 * byte (4 * i + 1) + 65536 * byte (4 * i + 2)
                          + 16777216 * byte (4 * i + 3))"
        using v by blast
      with True show ?thesis by simp
    next
      case False
      with d main show ?thesis by (simp add: bind_exn_def)
    qed
  }
  {
    assume a: "f = 1 \<and> b = 16"
    let ?s = "map (\<lambda>b. float32_of_scaled (signed_of 16 (le_uint b)) 15) (groups 2 data)"
    have d: "decode_samples info data
        = (if length data mod 2 = 0 then Inr ?s
           else Inl (ValueError ''buffer size must be a multiple of element size''))"
      using a decode_samples_pcm16 [of info data] by (simp add: f_def b_def)
    have v: "float32_value (?s ! i)
        = (let v = byte (2 * i) + 256 * byte (2 * i + 1)
           in real_of_int (if v < 32768 then v else v - 65536) / 32768)"
      if "i < length ?s" for i
    proof -
      from that have i: "i < length data div 2" by simp
      let ?n = "le_uint (slice (i * 2) ((i + 1) * 2) data)"
      have "?s ! i = float32_of_scaled (signed_of 16 ?n) 15"
        using i by (simp add: nth_groups)
      with pcm_value [of 15 i data 2, OF _ i]
      have "float32_value (?s ! i) = real_of_int (signed_of 16 ?n) / 32768" by simp
      moreover have "signed_of 16 ?n = (if int ?n < 32768 then int ?n else int ?n - 65536)"
        by (simp add: signed_of_def)
      ultimately show ?thesis by (simp only: le_uint_slice2 [OF i] byte_def Let_def)
    qed
    show "if length data mod 2 = 0
          then \<exists>samples. decode_wav_bytes None mean wav = mixdown samples
                 \<and> length samples = length data div 2
                 \<and> (\<forall>i < length samples. float32_value (samples ! i)
                        = (let v = byte (2 * i) + 256 * byte (2 * i + 1)
                           in real_of_int (if v < 32768 then v else v - 65536) / 32768))
          else decode_wav_bytes None mean wav
                 = Inl (ValueError ''buffer size must be a multiple of element size'')"
    proof (cases "length data mod 2 = 0")
      case True
      with d main have "decode_wav_bytes None mean wav = mixdown ?s" by (simp add: bind_exn_def)
      moreover have "length ?s = length data div 2" by simp
      ultimately have "\<exists>samples. decode_wav_bytes None mean wav = mixdown samples
                 \<and> length samples = length data div 2
                 \<and> (\<forall>i < length samples. float32_value (samples ! i)
                        = (let v = byte (2 * i) + 256 * byte (2 * i + 1)
                           in real_of_int (if v < 32768 then v else v - 65536) / 32768))"
        using v by blast
      with True show ?thesis by simp
    next
      case False
      with d main show ?thesis by (simp add: bind_exn_def)
    qed
  }
  {
    assume a: "f = 1 \<and> b = 24"
    let ?s = "map (\<lambda>i. float32_of_scaled (signed_of 24 (le_uint (slice (i * 3) ((i + 1) * 3) data))) 23)
                [0..<length data div 3]"
    have d: "decode_samples info data = Inr ?s"
      using a decode_samples_pcm24 [of info data] by (simp add: f_def b_def)
    have v: "float32_value (?s ! i)
        = (let v = byte (3 * i) + 256 * byte (3 * i + 1) + 65536 * byte (3 * i + 2)
           in real_of_int (if v < 8388608 then v else v - 16777216) / 8388608)"
      if "i < length ?s" for i
    proof -
      from that have i: "i < length data div 3" by simp
      let ?n = "le_uint (slice (i * 3) ((i + 1) * 3) data)"
      have "?s ! i = float32_of_scaled (signed_of 24 ?n) 23"
        using i by simp
      with pcm_value [of 23 i data 3, OF _ i]
      have "float32_value (?s ! i) = real_of_int (signed_of 24 ?n) / 8388608" by simp
      moreover have "signed_of 24 ?n = (if int ?n < 8388608 then int ?n else int ?n - 16777216)"
        by (simp add: signed_of_def)
      ultimately show ?thesis by (simp only: le_uint_slice3 [OF i] byte_def Let_def)
    qed
    from d main have "decode_wav_bytes None mean wav = mixdown ?s" by (simp add: bind_exn_def)
    moreover have "length ?s = length data div 3" by simp
    ultimately show "\<exists>samples. decode_wav_bytes None mean wav = mixdown samples
        \<and> length samples = length data div 3
        \<and> (\<forall>i < length samples. float32_value (samples ! i)
               = (let v = byte (3 * i) + 256 * byte (3 * i + 1) + 65536 * byte (3 * i + 2)
                  in real_of_int (if v < 8388608 then v else v - 16777216) / 8388608))"
      using v by blast
  }
qed

lemma decode_fmt_container:
  fixes n :: nat
  assumes "a < 65536" "c < 65536" "r < 4294967296" "b < 65536"
    and "payload \<noteq> []" "declared < 2 ^ 32" "0 < declared"
  shows "decode_wav_bytes None mean (container (le_bytes 4 n) [(fmt_tag, fmt_body a c r b)] declared payload)
       = decode_payload mean \<lparr>fmt_audio_format = a, fmt_channels = c, fmt_sample_rate = r,
                                 fmt_bits_per_sample = b\<rparr> (take declared payload)"
proof -
  have w: "walkable [(fmt_tag, fmt_body a c r b)]" by (rule walk_fmt_body [OF assms(1-4)])
  have s: "walk_state [(fmt_tag, fmt_body a c r b)] (False, default_fmt)
      = (True, \<lparr>fmt_audio_format = a, fmt_channels = c, fmt_sample_rate = r,
                 fmt_bits_per_sample = b\<rparr>)"
    by (rule walk_fmt_body [OF assms(1-4)])
  have "decode_wav_fallback mean (container (le_bytes 4 n) [(fmt_tag, fmt_body a c r b)] declared payload)
      = decode_payload mean (snd (walk_state [(fmt_tag, fmt_body a c r b)] (False, default_fmt)))
          (take declared payload)"
    by (rule decode_container [OF _ w assms(5,6) _ assms(7)]) (simp_all add: s)
  then show ?thesis by (simp only: s snd_conv decode_wav_bytes_None)
qed

lemma examples_decoded:
  "decode_wav_bytes None (\<lambda>c. 0) example_float32 = Inr ([0x3F800000], 48000)"
  "decode_wav_bytes None (\<lambda>c. 0) example_pcm16 = Inr ([0x3F000000, 0xBF800000], 48000)"
  "decode_wav_bytes None (\<lambda>c. 0) example_pcm24 = Inr ([0x3F000000, 0xBF800000], 48000)"
  "decode_wav_bytes None last example_stereo16 = Inr ([0xBF800000], 48000)"
proof -
  have u: "[0..<2] = [0, 1]" "[0..<Suc 0] = [0]" "[0..<1] = [0]"
    by (simp_all add: numeral_2_eq_2)
  show "decode_wav_bytes None (\<lambda>c. 0) example_float32 = Inr ([0x3F800000], 48000)"
    unfolding example_float32_def
    by (subst decode_fmt_container)
       (simp_all add: decode_payload_def decode_samples_def frombuffer_def groups_def slice_def
          float32_frombytes_def mix_to_mono_def u)
  show "decode_wav_bytes None (\<lambda>c. 0) example_pcm16 = Inr ([0x3F000000, 0xBF800000], 48000)"
    unfolding example_pcm16_def
    by (subst decode_fmt_container)
       (simp_all add: decode_payload_def decode_samples_def frombuffer_def groups_def slice_def
          signed_of_def float32_of_scaled_def mix_to_mono_def u)
  show "decode_wav_bytes None (\<lambda>c. 0) example_pcm24 = Inr ([0x3F000000, 0xBF800000], 48000)"
    unfolding example_pcm24_def
    by (subst decode_fmt_container)
       (simp_all add: decode_payload_def decode_samples_def frombuffer_def groups_def slice_def
          signed_of_def float32_of_scaled_def mix_to_mono_def u)
  show "decode_wav_bytes None last example_stereo16 = Inr ([0xBF800000], 48000)"
    unfolding example_stereo16_def
    by (subst decode_fmt_container)
       (simp_all add: decode_payload_def decode_samples_def frombuffer_def groups_def slice_def
          signed_of_def float32_of_scaled_def mix_to_mono_def u)
qed

lemma all_less_2:
  "(\<forall>i < (2::nat). P i) = (P 0 \<and> P 1)"
  "(\<forall>i < Suc (Suc 0). P i) = (P 0 \<and> P (Suc 0))"
  "(\<forall>i < Suc 0. P i) = P 0"
  by (auto simp: less_2_cases_iff less_Suc_eq)

theorem decode_wav_bytes_formats_witness:
  "(\<exists>samples. decode_wav_bytes None (\<lambda>c. 0) example_float32 = Inr (samples, 48000)
        \<and> length samples = 1 \<and> uint (samples ! 0) = 0x3F800000)
   \<and> (\<exists>samples. decode_wav_bytes None (\<lambda>c. 0) example_pcm16 = Inr (samples, 48000)
        \<and> length samples = 2 \<and> float32_value (samples ! 0) = 1 / 2
        \<and> float32_value (samples ! 1) = - 1)
   \<and> (\<exists>samples. decode_wav_bytes None (\<lambda>c. 0) example_pcm24 = Inr (samples, 48000)
        \<and> length samples = 2 \<and> float32_value (samples ! 0) = 1 / 2
        \<and> float32_value (samples ! 1) = - 1)
   \<and> (\<exists>samples. decode_wav_bytes None last example_stereo16 = Inr ([samples ! 1], 48000)
        \<and> length samples = 2 \<and> float32_value (samples ! 0) = 1 / 2
        \<and> float32_value (samples ! 1) = - 1)
   \<and> decode_wav_bytes None (\<lambda>c. 0) example_pcm8 = Inl (UnsupportedWavFormat 1 8)
   \<and> decode_wav_bytes (Some pcm8_soundfile) (\<lambda>c. 0) example_pcm8 = Inr ([0x3F000000], 8000)
   \<and> decode_wav_bytes None (\<lambda>c. 0) example_float32 = Inr ([0x3F800000], 48000)
   \<and> decode_wav_bytes None (\<lambda>c. 0) example_pcm16 = Inr ([0x3F000000, 0xBF800000], 48000)
   \<and> decode_wav_bytes None (\<lambda>c. 0) example_pcm24 = Inr ([0x3F000000, 0xBF800000], 48000)
   \<and> decode_wav_bytes None last example_stereo16 = Inr ([0xBF800000], 48000)"
proof -
  have u: "[0..<Suc 0] = [0]" "[0..<1] = [0]" by simp_all
  have c32: "44 \<le> length example_float32" "slice 0 4 example_float32 = RIFF"
    "slice 8 12 example_float32 = WAVE"
    "parse_chunks example_float32 12 (False, default_fmt)
       = Inr (True, \<lparr>fmt_audio_format = 3, fmt_channels = 1, fmt_sample_rate = 48000,
                        fmt_bits_per_sample = 32\<rparr>, [0, 0, 128, 63])"
    unfolding example_float32_def
    using fmt_container [of 3 1 48000 32 "[0, 0, 128, 63]" 4 40] by simp_all
  have c16: "44 \<le> length example_pcm16" "slice 0 4 example_pcm16 = RIFF"
    "slice 8 12 example_pcm16 = WAVE"
    "parse_chunks example_pcm16 12 (False, default_fmt)
       = Inr (True, \<lparr>fmt_audio_format = 1, fmt_channels = 1, fmt_sample_rate = 48000,
                        fmt_bits_per_sample = 16\<rparr>, [0, 64, 0, 128])"
    unfolding example_pcm16_def
    using fmt_container [of 1 1 48000 16 "[0, 64, 0, 128]" 4 40] by simp_all
  have c24: "44 \<le> length example_pcm24" "slice 0 4 example_pcm24 = RIFF"
    "slice 8 12 example_pcm24 = WAVE"
    "parse_chunks example_pcm24 12 (False, default_fmt)
       = Inr (True, \<lparr>fmt_audio_format = 1, fmt_channels = 1, fmt_sample_rate = 48000,
                        fmt_bits_per_sample = 24\<rparr>, [0, 0, 64, 0, 0, 128])"
    unfolding example_pcm24_def
    using fmt_container [of 1 1 48000 24 "[0, 0, 64, 0, 0, 128]" 6 42] by simp_all
  have cst: "44 \<le> length example_stereo16" "slice 0 4 example_stereo16 = RIFF"
    "slice 8 12 example_stereo16 = WAVE"
    "parse_chunks example_stereo16 12 (False, default_fmt)
       = Inr (True, \<lparr>fmt_audio_format = 1, fmt_channels = 2, fmt_sample_rate = 48000,
                        fmt_bits_per_sample = 16\<rparr>, [0, 64, 0, 128])"
    unfolding example_stereo16_def
    using fmt_container [of 1 2 48000 16 "[0, 64, 0, 128]" 4 40] by simp_all
  have c8: "44 \<le> length example_pcm8" "slice 0 4 example_pcm8 = RIFF"
    "slice 8 12 example_pcm8 = WAVE"
    "parse_chunks example_pcm8 12 (False, default_fmt)
       = Inr (True, \<lparr>fmt_audio_format = 1, fmt_channels = 1, fmt_sample_rate = 8000,
                        fmt_bits_per_sample = 8\<rparr>, [192])"
    unfolding example_pcm8_def
    using fmt_container [of 1 1 8000 8 "[192]" 1 37] by simp_all
  have a: "\<exists>samples. decode_wav_bytes None (\<lambda>c. 0) example_float32 = Inr (samples, 48000)
        \<and> length samples = 1 \<and> uint (samples ! 0) = 0x3F800000"
    using decode_wav_bytes_formats [OF c32, of "\<lambda>c. 0" pcm8_soundfile]
    by (auto simp: all_less_2 cong: conj_cong)
  have b: "\<exists>samples. decode_wav_bytes None (\<lambda>c. 0) example_pcm16 = Inr (samples, 48000)
        \<and> length samples = 2 \<and> float32_value (samples ! 0) = 1 / 2
        \<and> float32_value (samples ! 1) = - 1"
    using decode_wav_bytes_formats [OF c16, of "\<lambda>c. 0" pcm8_soundfile]
    by (auto simp: all_less_2 cong: conj_cong)
  have c: "\<exists>samples. decode_wav_bytes None (\<lambda>c. 0) example_pcm24 = Inr (samples, 48000)
        \<and> length samples = 2 \<and> float32_value (samples ! 0) = 1 / 2
        \<and> float32_value (samples ! 1) = - 1"
    using decode_wav_bytes_formats [OF c24, of "\<lambda>c. 0" pcm8_soundfile]
    by (auto simp: all_less_2 cong: conj_cong)
  have d: "\<exists>samples. decode_wav_bytes None last example_stereo16 = Inr ([samples ! 1], 48000)
        \<and> length samples = 2 \<and> float32_value (samples ! 0) = 1 / 2
        \<and> float32_value (samples ! 1) = - 1"
  proof -
    from decode_wav_bytes_formats [OF cst, of last pcm8_soundfile]
    obtain samples where s: "decode_wav_bytes None last example_stereo16
          = Inr (map (\<lambda>j. last (take 2 (drop (j * 2) samples))) [0..<length samples div 2], 48000)"
      "length samples = 2" "float32_value (samples ! 0) = 1 / 2"
      "float32_value (samples ! 1) = - 1"
      by (auto simp: all_less_2 cong: conj_cong)
    from s(2) obtain x y where "samples = [x, y]"
      by (cases samples; cases "tl samples") auto
    with s show ?thesis by (intro exI [of _ "[x, y]"]) (simp add: u)
  qed
  have e: "decode_wav_bytes None (\<lambda>c. 0) example_pcm8 = Inl (UnsupportedWavFormat 1 8)"
    "decode_wav_bytes (Some pcm8_soundfile) (\<lambda>c. 0) example_pcm8 = Inr ([0x3F000000], 8000)"
    using decode_wav_bytes_formats [OF c8, of "\<lambda>c. 0" pcm8_soundfile]
    by (simp_all add: pcm8_soundfile_def)
  from a b c d e examples_decoded show ?thesis by (intro conjI)
qed

subsection \<open>Header checks, layout and round trip\<close>

definition wav_roundtrip ::
  "soundfile option \<Rightarrow> (float32 list \<Rightarrow> float32) \<Rightarrow> float32 list \<Rightarrow> int
     \<Rightarrow> exn + (float32 list \<times> nat)" where
  "wav_roundtrip sf mean samples sample_rate =
     bind_exn (encode_wav_bytes sf samples sample_rate) (decode_wav_bytes sf mean)"

text \<open>
  A 56-byte AIFF file: one 16-bit frame of value \<open>0x4000\<close> at 8000 Hz (\<^verbatim>\<open>FORM\<close>, \<^verbatim>\<open>COMM\<close> and
  \<^verbatim>\<open>SSND\<close> chunks, big-endian, the rate as an 80-bit extended float). \<open>aiff_soundfile\<close> stands
  for the library where it is installed: it reads this file as the sample \<open>0.5\<close> and, like
  the library, writes a float WAV.
\<close>

definition example_aiff :: "byte list" where
  "example_aiff =
     ascii ''FORM'' @ [0, 0, 0, 48] @ ascii ''AIFF''
     @ ascii ''COMM'' @ [0, 0, 0, 18] @ [0, 1] @ [0, 0, 0, 1] @ [0, 16]
     @ [0x40, 0x0B, 0xFA, 0, 0, 0, 0, 0, 0, 0]
     @ ascii ''SSND'' @ [0, 0, 0, 10] @ [0, 0, 0, 0] @ [0, 0, 0, 0] @ [0x40, 0]"

definition aiff_soundfile :: soundfile where
  "aiff_soundfile =
     \<lparr>sf_read = (\<lambda>bs. if bs = example_aiff then Inr (Mono [0x3F000000], 8000)
                       else Inl (LibsndfileError ''Format not recognised'')),
      sf_write = encode_wav_fallback\<rparr>"

text \<open>
  Claim C4, as stated, fails where \<^verbatim>\<open>soundfile\<close> is installed: the library is tried first, the
  length and magic checks of the repository are never reached, and a file the library
  reads is decoded whatever its first bytes are.
\<close>

theorem decode_wav_bytes_soundfile_accepts:
  "44 \<le> length example_aiff \<and> slice 0 4 example_aiff \<noteq> RIFF \<and> slice 8 12 example_aiff \<noteq> WAVE
   \<and> decode_wav_bytes (Some aiff_soundfile) (\<lambda>c. 0) example_aiff = Inr ([0x3F000000], 8000)"
  by (simp add: decode_wav_bytes_Some aiff_soundfile_def example_aiff_def ascii_def slice_def
      tags_ascii)

text \<open>
  Claim C4, amended. When \<^verbatim>\<open>soundfile\<close> cannot be imported, \<open>decode_wav_bytes\<close> raises
  \<^verbatim>\<open>ValueError("WAV data too short")\<close> for every input shorter than 44 bytes, and
  \<^verbatim>\<open>ValueError("Not a valid WAV file")\<close> for every input of at least 44 bytes that does not
  have both \<^verbatim>\<open>RIFF\<close> at offset 0 and \<^verbatim>\<open>WAVE\<close> at offset 8. When \<^verbatim>\<open>soundfile\<close> is imported,
  \<open>decode_wav_bytes\<close> makes no check of its own: it raises what \<^verbatim>\<open>sf.read\<close> raises and returns
  what \<^verbatim>\<open>sf.read\<close> returns, mixed to mono.
\<close>

theorem decode_wav_bytes_rejects:
  "(length wav_bytes < 44 \<longrightarrow>
      decode_wav_bytes None mean wav_bytes = Inl (ValueError ''WAV data too short''))
   \<and> (44 \<le> length wav_bytes \<and> \<not> (slice 0 4 wav_bytes = RIFF \<and> slice 8 12 wav_bytes = WAVE) \<longrightarrow>
      decode_wav_bytes None mean wav_bytes = Inl (ValueError ''Not a valid WAV file''))
   \<and> decode_wav_bytes (Some lib) mean wav_bytes =
       (case sf_read lib wav_bytes of
          Inl e \<Rightarrow> Inl e
        | Inr (arr, sr) \<Rightarrow>
            Inr (case arr of Mono samples \<Rightarrow> samples | Frames frames \<Rightarrow> map mean frames, sr))"
  by (simp add: decode_wav_bytes_None decode_wav_bytes_Some decode_wav_fallback_def)

theorem decode_wav_bytes_rejects_witness:
  "length (ascii ''short'') < 44
   \<and> decode_wav_bytes None (\<lambda>c. 0) (ascii ''short'') = Inl (ValueError ''WAV data too short'')
   \<and> 44 \<le> length (ascii ''NOT_RIFF'' @ replicate 40 0)
   \<and> slice 0 4 (ascii ''NOT_RIFF'' @ replicate 40 0) \<noteq> RIFF
   \<and> decode_wav_bytes None (\<lambda>c. 0) (ascii ''NOT_RIFF'' @ replicate 40 0)
       = Inl (ValueError ''Not a valid WAV file'')
   \<and> sf_read aiff_soundfile (ascii ''short'') = Inl (LibsndfileError ''Format not recognised'')
   \<and> decode_wav_bytes (Some aiff_soundfile) (\<lambda>c. 0) (ascii ''short'')
       = Inl (LibsndfileError ''Format not recognised'')
   \<and> sf_read aiff_soundfile example_aiff = Inr (Mono [0x3F000000], 8000)
   \<and> decode_wav_bytes (Some aiff_soundfile) (\<lambda>c. 0) example_aiff = Inr ([0x3F000000], 8000)"
proof -
  have a: "length (ascii ''short'') < 44" by (simp add: ascii_def)
  have b: "44 \<le> length (ascii ''NOT_RIFF'' @ replicate 40 0)" by (simp add: ascii_def)
  have c: "slice 0 4 (ascii ''NOT_RIFF'' @ replicate 40 0) \<noteq> RIFF"
    by (simp add: ascii_def slice_def tags_ascii)
  have d: "sf_read aiff_soundfile (ascii ''short'') = Inl (LibsndfileError ''Format not recognised'')"
    by (simp add: aiff_soundfile_def example_aiff_def ascii_def)
  have e: "sf_read aiff_soundfile example_aiff = Inr (Mono [0x3F000000], 8000)"
    by (simp add: aiff_soundfile_def)
  from a b c d e
    decode_wav_bytes_rejects [of "ascii ''short''" "\<lambda>c. 0" aiff_soundfile]
    decode_wav_bytes_rejects [of "ascii ''NOT_RIFF'' @ replicate 40 0" "\<lambda>c. 0" aiff_soundfile]
    decode_wav_bytes_rejects [of example_aiff "\<lambda>c. 0" aiff_soundfile]
  show ?thesis by simp
qed

text \<open>
  Claim C8, as stated, fails. Without \<^verbatim>\<open>soundfile\<close>, \<^verbatim>\<open>struct.pack\<close> raises when a header field
  does not fit its 32 bits: at sample rate \<open>2 ^ 30\<close> the byte rate \<open>sample_rate * 4\<close> is
  \<open>2 ^ 32\<close>.
\<close>

theorem encode_wav_bytes_struct_error: "encode_wav_bytes None [] 1073741824 = Inl StructError"
  unfolding encode_wav_bytes_None by (rule encode_wav_fallback_fails) simp

text \<open>
  Claim C8, amended. When \<^verbatim>\<open>soundfile\<close> cannot be imported, \<open>encode_wav_bytes\<close> succeeds exactly
  when \<open>0 \<le> sample_rate < 2 ^ 30\<close> and \<open>36 + 4 * length samples < 2 ^ 32\<close>, and raises
  \<^verbatim>\<open>struct.error\<close> otherwise. When it succeeds the output is 44 header bytes and the samples:
  \<^verbatim>\<open>RIFF\<close> at 0, the RIFF size \<open>36 + dataBytes\<close> at 4, \<^verbatim>\<open>WAVE\<close> at 8, \<^verbatim>\<open>fmt \<close> at 12 with size 16,
  format 3, 1 channel, the sample rate, byte rate \<open>sample_rate * 4\<close>, block align 4, 32 bits
  per sample, \<^verbatim>\<open>data\<close> at 36 with size \<open>dataBytes = 4 * length samples\<close>, and the little-endian
  float32 samples from byte 44. When \<^verbatim>\<open>soundfile\<close> is imported, the output and the exceptions
  are those of \<^verbatim>\<open>sf.write\<close>.
\<close>

theorem encode_wav_bytes_layout:
  "(if 0 \<le> r \<and> r < 2 ^ 30 \<and> 36 + 4 * length B < 2 ^ 32
    then \<exists>out. encode_wav_bytes None B r = Inr out
           \<and> length out = 44 + 4 * length B
           \<and> slice 0 4 out = RIFF
           \<and> le_uint (slice 4 8 out) = 36 + 4 * length B
           \<and> slice 8 12 out = WAVE
           \<and> slice 12 16 out = fmt_tag
           \<and> le_uint (slice 16 20 out) = 16
           \<and> le_uint (slice 20 22 out) = 3
           \<and> le_uint (slice 22 24 out) = 1
           \<and> int (le_uint (slice 24 28 out)) = r
           \<and> int (le_uint (slice 28 32 out)) = r * 4
           \<and> le_uint (slice 32 34 out) = 4
           \<and> le_uint (slice 34 36 out) = 32
           \<and> slice 36 40 out = data_tag
           \<and> le_uint (slice 40 44 out) = 4 * length B
           \<and> drop 44 out = concat (map float32_tobytes B)
    else encode_wav_bytes None B r = Inl StructError)
   \<and> encode_wav_bytes (Some lib) B r = sf_write lib B r"
proof (cases "0 \<le> r \<and> r < 2 ^ 30 \<and> 36 + 4 * length B < 2 ^ 32")
  case False
  then have "encode_wav_fallback B r = Inl StructError"
    by (intro encode_wav_fallback_fails) auto
  with False show ?thesis by (simp add: encode_wav_bytes_None encode_wav_bytes_Some)
next
  case True
  then have r: "0 \<le> r" "r < 2 ^ 30" and n: "36 + 4 * length B < 2 ^ 32" by auto
  let ?out = "concat (header_fields (length B) (nat r)) @ concat (map float32_tobytes B)"
  have enc: "encode_wav_fallback B r = Inr ?out" by (rule encode_wav_fallback_ok [OF r n])
  have "length ?out = 44 + 4 * length B" by simp
  moreover have "le_uint (le_bytes 4 (36 + 4 * length B)) = 36 + 4 * length B"
    "le_uint (le_bytes 4 (4 * length B)) = 4 * length B"
    using n by (simp_all add: le_uint_le_bytes)
  moreover have "int (le_uint (le_bytes 4 (nat r))) = r" "int (le_uint (le_bytes 4 (4 * nat r))) = r * 4"
    using r by (simp_all add: le_uint_le_bytes)
  moreover have "le_uint (le_bytes 4 16) = 16" "le_uint (le_bytes 2 3) = 3" "le_uint (le_bytes 2 1) = 1"
    "le_uint (le_bytes 2 4) = 4" "le_uint (le_bytes 2 32) = 32"
    by (simp_all add: le_uint_le_bytes)
  ultimately show ?thesis using True enc
    by (simp add: header_layout encode_wav_bytes_None encode_wav_bytes_Some)
qed

theorem encode_wav_bytes_layout_witness:
  "(\<exists>out. encode_wav_bytes None [0x3F800000] 48000 = Inr out \<and> length out = 48
     \<and> slice 0 4 out = RIFF \<and> le_uint (slice 4 8 out) = 40 \<and> slice 8 12 out = WAVE
     \<and> le_uint (slice 28 32 out) = 192000 \<and> drop 44 out = [0, 0, 128, 63])
   \<and> encode_wav_bytes None [0x3F800000] (- 1) = Inl StructError
   \<and> encode_wav_bytes None [0x3F800000] 48000
       = Inr [0x52, 0x49, 0x46, 0x46, 40, 0, 0, 0, 0x57, 0x41, 0x56, 0x45,
              0x66, 0x6D, 0x74, 0x20, 16, 0, 0, 0, 3, 0, 1, 0,
              0x80, 0xBB, 0, 0, 0x00, 0xEE, 0x02, 0x00, 4, 0, 32, 0,
              0x64, 0x61, 0x74, 0x61, 4, 0, 0, 0, 0, 0, 0x80, 0x3F]"
proof -
  have t: "concat (map float32_tobytes [0x3F800000]) = [0, 0, 128, 63]"
    by (simp add: float32_tobytes_def le_bytes_numeral le_bytes_1)
  have t2: "float32_tobytes 0x3F800000 = [0, 0, 128, 63]"
    by (simp add: float32_tobytes_def le_bytes_numeral le_bytes_1)
  have b: "encode_wav_bytes None [0x3F800000] 48000
       = Inr [0x52, 0x49, 0x46, 0x46, 40, 0, 0, 0, 0x57, 0x41, 0x56, 0x45,
              0x66, 0x6D, 0x74, 0x20, 16, 0, 0, 0, 3, 0, 1, 0,
              0x80, 0xBB, 0, 0, 0x00, 0xEE, 0x02, 0x00, 4, 0, 32, 0,
              0x64, 0x61, 0x74, 0x61, 4, 0, 0, 0, 0, 0, 0x80, 0x3F]"
    by (simp add: encode_wav_bytes_None encode_wav_fallback_def bind_exn_def pack_uint_def
        le_bytes_numeral le_bytes_1 t2 tags_ascii ascii_def)
  from t encode_wav_bytes_layout [of 48000 "[0x3F800000]"]
    encode_wav_bytes_layout [of "- 1" "[0x3F800000]"]
  have "(\<exists>out. encode_wav_bytes None [0x3F800000] 48000 = Inr out \<and> length out = 48
     \<and> slice 0 4 out = RIFF \<and> le_uint (slice 4 8 out) = 40 \<and> slice 8 12 out = WAVE
     \<and> le_uint (slice 28 32 out) = 192000 \<and> drop 44 out = [0, 0, 128, 63])
   \<and> encode_wav_bytes None [0x3F800000] (- 1) = Inl StructError"
    by auto
  with b show ?thesis by (intro conjI) simp_all
qed

text \<open>
  Claim C1, as stated, fails. Without \<^verbatim>\<open>soundfile\<close>, the encoder raises when the sample rate
  does not fit the header, and the encoding of the empty buffer is refused by the decoder
  (its chunk walk stops before a chunk header that ends the file, and an empty payload
  counts as a missing chunk).
\<close>

theorem wav_roundtrip_fails:
  "wav_roundtrip None (\<lambda>c. 0) [0x3F800000] 1073741824 = Inl StructError
   \<and> wav_roundtrip None (\<lambda>c. 0) [] 48000 = Inl (ValueError ''Missing fmt or data chunk in WAV'')"
proof
  have "encode_wav_fallback [0x3F800000] 1073741824 = Inl StructError"
    by (rule encode_wav_fallback_fails) simp
  then show "wav_roundtrip None (\<lambda>c. 0) [0x3F800000] 1073741824 = Inl StructError"
    by (simp add: wav_roundtrip_def bind_exn_def encode_wav_bytes_None)
next
  have "encode_wav_fallback [] 48000 = Inr (concat (header_fields 0 48000))"
    using encode_wav_fallback_ok [of 48000 "[]"] by simp
  then show "wav_roundtrip None (\<lambda>c. 0) [] 48000 = Inl (ValueError ''Missing fmt or data chunk in WAV'')"
    by (simp add: wav_roundtrip_def bind_exn_def decode_encoded_empty encode_wav_bytes_None
        decode_wav_bytes_None)
qed

text \<open>
  Claim C1, amended. When \<^verbatim>\<open>soundfile\<close> cannot be imported: for every non-empty float32 buffer
  \<open>B\<close> with \<open>36 + 4 * length B < 2 ^ 32\<close> (48000 samples and one sample included) and every
  sample rate \<open>0 \<le> r < 2 ^ 30\<close>, \<open>decode_wav_bytes (encode_wav_bytes B r)\<close> returns \<open>(B, r)\<close>:
  the samples come back bit for bit, hence within \<open>1e-5\<close> where they are finite. When
  \<^verbatim>\<open>soundfile\<close> is imported the round trip is \<^verbatim>\<open>sf.write\<close> followed by \<^verbatim>\<open>sf.read\<close> and the mix to
  mono.
\<close>

theorem wav_roundtrip_exact:
  assumes "B \<noteq> []" "0 \<le> r" "r < 2 ^ 30" "36 + 4 * length B < 2 ^ 32"
  shows "(\<exists>B'. wav_roundtrip None mean B r = Inr (B', nat r) \<and> B' = B
           \<and> (\<forall>i < length B. \<bar>float32_value (B' ! i) - float32_value (B ! i)\<bar> \<le> 1 / 100000))
     \<and> wav_roundtrip (Some lib) mean B r =
         bind_exn (sf_write lib B r) (\<lambda>wav_bytes.
           bind_exn (sf_read lib wav_bytes) (\<lambda>(data, sr).
             Inr (case data of Mono samples \<Rightarrow> samples | Frames frames \<Rightarrow> map mean frames, sr)))"
proof -
  from assms have "nat r < 2 ^ 32" by simp
  from decode_encoded [OF assms(1) this assms(4)] encode_wav_fallback_ok [OF assms(2-4)]
  have "wav_roundtrip None mean B r = Inr (B, nat r)"
    by (simp add: wav_roundtrip_def bind_exn_def encode_wav_bytes_None decode_wav_bytes_None)
  moreover have "wav_roundtrip (Some lib) mean B r =
         bind_exn (sf_write lib B r) (\<lambda>wav_bytes.
           bind_exn (sf_read lib wav_bytes) (\<lambda>(data, sr).
             Inr (case data of Mono samples \<Rightarrow> samples | Frames frames \<Rightarrow> map mean frames, sr)))"
    by (simp add: wav_roundtrip_def bind_exn_def encode_wav_bytes_Some decode_wav_bytes_Some
        split: sum.splits)
  ultimately show ?thesis by simp
qed

theorem wav_roundtrip_exact_witness:
  "wav_roundtrip None (\<lambda>c. 0) [0x3F800000, 0xBF000000] 48000 = Inr ([0x3F800000, 0xBF000000], 48000)"
  using wav_roundtrip_exact [of "[0x3F800000, 0xBF000000]" 48000 "\<lambda>c. 0"] by simp

subsection \<open>A data chunk that declares more than the file holds\<close>

lemma decode_payload_errors:
  assumes "decode_payload mean info data = Inl e"
  shows "e = ValueError ''buffer size must be a multiple of element size''
       \<or> e = UnsupportedWavFormat (fmt_audio_format info) (fmt_bits_per_sample info)
       \<or> e = ValueError ''cannot reshape array''"
  using assms
  by (auto simp: decode_payload_def decode_samples_def frombuffer_def mix_to_mono_def Let_def
           split: sum.splits if_splits)

lemma decode_samples_count:
  assumes "decode_samples info data = Inr samples"
  shows "length samples * (fmt_bits_per_sample info div 8) \<le> length data"
  using assms
  by (auto simp: decode_samples_def frombuffer_def Let_def split: sum.splits if_splits)

lemma mix_to_mono_count:
  assumes "mix_to_mono mean chans samples = Inr mixed"
  shows "length mixed \<le> length samples"
  using assms by (auto simp: mix_to_mono_def split: if_splits)

lemma decode_payload_count:
  assumes "decode_payload mean info data = Inr (samples, sr)"
  shows "length samples * (fmt_bits_per_sample info div 8) \<le> length data"
proof -
  from assms obtain s0 where d: "decode_samples info data = Inr s0"
    and m: "mix_to_mono mean (fmt_channels info) s0 = Inr samples"
    by (auto simp: decode_payload_def split: sum.splits)
  have "length samples * (fmt_bits_per_sample info div 8)
      \<le> length s0 * (fmt_bits_per_sample info div 8)"
    by (rule mult_le_mono1 [OF mix_to_mono_count [OF m]])
  then show ?thesis by (rule le_trans [OF _ decode_samples_count [OF d]])
qed

definition example_float32_fmt :: "(byte list \<times> byte list) list" where
  "example_float32_fmt = [(fmt_tag, fmt_body 3 1 48000 32)]"

text \<open>
  Claim C9, as stated, fails on two kinds of input whose \<^verbatim>\<open>data\<close> chunk declares more bytes
  than remain, decoded without \<^verbatim>\<open>soundfile\<close>. Without a \<^verbatim>\<open>fmt \<close> chunk before it the decoder
  raises the missing-chunk error. With a float32 \<^verbatim>\<open>fmt \<close> chunk and five bytes where eight are
  declared, the truncated payload is not a whole number of samples: \<^verbatim>\<open>np.frombuffer\<close> raises,
  and no sample is returned.
\<close>

theorem decode_wav_bytes_truncated_raises:
  "decode_wav_bytes None (\<lambda>c. 0) (container (le_bytes 4 0) [] 100 (replicate 24 0))
     = Inl (ValueError ''Missing fmt or data chunk in WAV'')
   \<and> decode_wav_bytes None (\<lambda>c. 0) (container (le_bytes 4 0) example_float32_fmt 8 [0, 0, 128, 63, 0])
     = Inl (ValueError ''buffer size must be a multiple of element size'')"
proof
  let ?w = "container (le_bytes 4 0) [] 100 (replicate 24 0)"
  have p: "parse_chunks ?w 12 (False, default_fmt)
      = Inr (fst (walk_state [] (False, default_fmt)), snd (walk_state [] (False, default_fmt)),
             take 100 (replicate 24 0))"
    by (rule parse_container) simp_all
  have l: "44 \<le> length ?w" by (simp add: length_container)
  have w: "slice 8 12 ?w = WAVE" by (rule container_wave) simp
  from decode_wav_fallback_parsed [OF l container_riff w p, of "\<lambda>c. 0"]
  show "decode_wav_bytes None (\<lambda>c. 0) ?w = Inl (ValueError ''Missing fmt or data chunk in WAV'')"
    by (simp add: decode_wav_bytes_None)
next
  let ?info = "\<lparr>fmt_audio_format = 3, fmt_channels = 1, fmt_sample_rate = 48000,
                fmt_bits_per_sample = 32\<rparr>"
  have w: "walkable example_float32_fmt" unfolding example_float32_fmt_def
    by (rule walk_fmt_body) simp_all
  have s: "walk_state example_float32_fmt (False, default_fmt) = (True, ?info)"
    unfolding example_float32_fmt_def by (rule walk_fmt_body) simp_all
  have "decode_wav_fallback (\<lambda>c. 0) (container (le_bytes 4 0) example_float32_fmt 8 [0, 0, 128, 63, 0])
      = decode_payload (\<lambda>c. 0) (snd (walk_state example_float32_fmt (False, default_fmt)))
          (take 8 [0, 0, 128, 63, 0])"
    by (rule decode_container [OF _ w]) (simp_all add: s)
  also have "\<dots> = decode_payload (\<lambda>c. 0) ?info [0, 0, 128, 63, 0]"
    by (simp only: s snd_conv) simp
  also have "\<dots> = Inl (ValueError ''buffer size must be a multiple of element size'')"
    by (simp add: decode_payload_def decode_samples_def frombuffer_def)
  finally show "decode_wav_bytes None (\<lambda>c. 0)
        (container (le_bytes 4 0) example_float32_fmt 8 [0, 0, 128, 63, 0])
      = Inl (ValueError ''buffer size must be a multiple of element size'')"
    by (simp only: decode_wav_bytes_None)
qed

text \<open>
  Claim C9, amended. When \<^verbatim>\<open>soundfile\<close> cannot be imported, \<open>decode_wav_bytes\<close> does not compare
  the declared size of the \<^verbatim>\<open>data\<close> chunk with the bytes present. For every container whose
  chunks before the \<^verbatim>\<open>data\<close> chunk include a \<^verbatim>\<open>fmt \<close> chunk and whose \<^verbatim>\<open>data\<close> chunk declares more
  bytes than remain (at least one remains), the result is that of the same file with the
  size field set to the bytes available: the decoding of the truncated payload. It is none
  of the too-short, invalid-magic and missing-chunk errors; when samples are returned, they
  are those of the available bytes, fewer bytes than declared. When \<^verbatim>\<open>soundfile\<close> is imported
  the file is read by \<^verbatim>\<open>sf.read\<close> alone.
\<close>

theorem decode_wav_bytes_truncated_payload:
  fixes mean :: "float32 list \<Rightarrow> float32" and riff_size payload :: "byte list"
    and cs :: "(byte list \<times> byte list) list" and declared :: nat
    and info :: fmt_info and result :: "exn + (float32 list \<times> nat)" and lib :: soundfile
  assumes "length riff_size = 4" "walkable cs" "fst (walk_state cs (False, default_fmt))"
    and "payload \<noteq> []" "length payload < declared" "declared < 2 ^ 32"
  defines "info \<equiv> snd (walk_state cs (False, default_fmt))"
    and "result \<equiv> decode_wav_bytes None mean (container riff_size cs declared payload)"
  shows "result = decode_wav_bytes None mean (container riff_size cs (length payload) payload)
     \<and> result = bind_exn (decode_samples info payload) (\<lambda>samples.
                  bind_exn (mix_to_mono mean (fmt_channels info) samples) (\<lambda>mixed.
                    Inr (mixed, fmt_sample_rate info)))
     \<and> result \<noteq> Inl (ValueError ''WAV data too short'')
     \<and> result \<noteq> Inl (ValueError ''Not a valid WAV file'')
     \<and> result \<noteq> Inl (ValueError ''Missing fmt or data chunk in WAV'')
     \<and> (\<forall>samples sr. result = Inr (samples, sr) \<longrightarrow>
            length samples * (fmt_bits_per_sample info div 8) \<le> length payload
          \<and> length payload < declared)
     \<and> decode_wav_bytes (Some lib) mean (container riff_size cs declared payload) =
         (case sf_read lib (container riff_size cs declared payload) of
            Inl e \<Rightarrow> Inl e
          | Inr (arr, sr) \<Rightarrow>
              Inr (case arr of Mono samples \<Rightarrow> samples | Frames frames \<Rightarrow> map mean frames, sr))"
proof -
  from assms(5) have d0: "0 < declared" by simp
  from assms(4) have p0: "0 < length payload" by simp
  from assms(5,6) have pl: "length payload < 2 ^ 32" by simp
  have r1: "result = decode_payload mean info (take declared payload)"
    unfolding result_def info_def decode_wav_bytes_None
    by (rule decode_container [OF assms(1,2,4,6,3) d0])
  have t: "take declared payload = payload" using assms(5) by simp
  have r: "result = decode_payload mean info payload" using r1 by (simp only: t)
  have "decode_wav_bytes None mean (container riff_size cs (length payload) payload)
      = decode_payload mean info (take (length payload) payload)"
    unfolding info_def decode_wav_bytes_None
    by (rule decode_container [OF assms(1,2,4) pl assms(3) p0])
  then have same: "result = decode_wav_bytes None mean (container riff_size cs (length payload) payload)"
    using r by simp
  have form: "result = bind_exn (decode_samples info payload) (\<lambda>samples.
                  bind_exn (mix_to_mono mean (fmt_channels info) samples) (\<lambda>mixed.
                    Inr (mixed, fmt_sample_rate info)))"
    unfolding r by (simp add: decode_payload_def bind_exn_def)
  have e: "result \<noteq> Inl (ValueError ''WAV data too short'')"
    "result \<noteq> Inl (ValueError ''Not a valid WAV file'')"
    "result \<noteq> Inl (ValueError ''Missing fmt or data chunk in WAV'')"
    using decode_payload_errors [of mean info payload] unfolding r by auto
  have c: "length samples * (fmt_bits_per_sample info div 8) \<le> length payload"
    if "result = Inr (samples, sr)" for samples sr
    using that unfolding r by (rule decode_payload_count)
  note lib = decode_wav_bytes_Some [of lib mean "container riff_size cs declared payload"]
  from same form e c assms(5) lib show ?thesis by blast
qed

theorem decode_wav_bytes_truncated_payload_witness:
  "walkable example_float32_fmt \<and> fst (walk_state example_float32_fmt (False, default_fmt))
   \<and> length (concat (map float32_tobytes [0x3F800000, 0xBF000000])) < (400::nat)
   \<and> decode_wav_bytes None (\<lambda>c. 0) (container (le_bytes 4 0) example_float32_fmt 400
          (concat (map float32_tobytes [0x3F800000, 0xBF000000])))
       = Inr ([0x3F800000, 0xBF000000], 48000)"
proof -
  let ?info = "\<lparr>fmt_audio_format = 3, fmt_channels = 1, fmt_sample_rate = 48000,
                fmt_bits_per_sample = 32\<rparr>"
  let ?p = "concat (map float32_tobytes [0x3F800000, 0xBF000000])"
  have w: "walkable example_float32_fmt" unfolding example_float32_fmt_def
    by (rule walk_fmt_body) simp_all
  have s: "walk_state example_float32_fmt (False, default_fmt) = (True, ?info)"
    unfolding example_float32_fmt_def by (rule walk_fmt_body) simp_all
  have f: "fst (walk_state example_float32_fmt (False, default_fmt))" by (simp only: s fst_conv)
  have ne: "?p \<noteq> []" by simp
  have lt: "length ?p < (400::nat)" by (simp only: length_concat_tobytes) simp
  have ls: "length (le_bytes 4 0) = 4" by simp
  have d: "decode_samples ?info ?p = Inr [0x3F800000, 0xBF000000]"
    by (rule decode_samples_float32) simp_all
  from decode_wav_bytes_truncated_payload [OF ls w f ne lt, of "\<lambda>c. 0", THEN conjunct2, THEN conjunct1]
  have "decode_wav_bytes None (\<lambda>c. 0) (container (le_bytes 4 0) example_float32_fmt 400 ?p)
      = bind_exn (decode_samples ?info ?p) (\<lambda>samples.
          bind_exn (mix_to_mono (\<lambda>c. 0) (fmt_channels ?info) samples) (\<lambda>mixed.
            Inr (mixed, fmt_sample_rate ?info)))"
    by (simp only: s snd_conv) simp
  then have "decode_wav_bytes None (\<lambda>c. 0) (container (le_bytes 4 0) example_float32_fmt 400 ?p)
      = bind_exn (Inr [0x3F800000, 0xBF000000]) (\<lambda>samples.
          bind_exn (mix_to_mono (\<lambda>c. 0) (fmt_channels ?info) samples) (\<lambda>mixed.
            Inr (mixed, fmt_sample_rate ?info)))"
    by (simp only: d)
  then have "decode_wav_bytes None (\<lambda>c. 0) (container (le_bytes 4 0) example_float32_fmt 400 ?p)
      = Inr ([0x3F800000, 0xBF000000], 48000)"
    by (simp add: bind_exn_def mix_to_mono_def)
  with w f lt show ?thesis by blast
qed

section \<open>Model wrapper (ACEStepWrapper.infer)\<close>

text \<open>
  A Python \<^verbatim>\<open>float\<close> that takes part in the step count is an IEEE-754 double: \<open>Finite m e\<close> is
  the number \<open>m * 2 ^ e\<close> (a double when \<open>\<bar>m\<bar> < 2 ^ 53\<close> and \<open>- 1074 \<le> e \<le> 971\<close>; \<open>0.7\<close> is
  \<open>Finite 6305039478318694 (- 53)\<close> and \<open>0.1\<close> is \<open>Finite 7205759403792794 (- 56)\<close>), and \<open>PosInf\<close>,
  \<open>NegInf\<close> and \<open>NaN\<close> are the three other values. The sign of a zero is not kept: nothing
  here reads it. \<open>float64_value\<close> is the number a finite double stands for, and is read on
  finite doubles only. \<open>float64_lt\<close> and \<open>float64_le\<close> are \<^verbatim>\<open><\<close> and \<^verbatim>\<open><=\<close>, false on \<open>NaN\<close>;
  \<open>float64_min\<close> and \<open>float64_max\<close> are the builtins \<^verbatim>\<open>min\<close> and \<^verbatim>\<open>max\<close> of two arguments, which
  keep the first argument unless the second is strictly smaller, resp. greater.
  \<open>float64_round m e\<close> is the double nearest to \<open>m * 2 ^ e\<close>, ties to the even mantissa, with
  53 bits above \<open>2 ^ - 1022\<close> and the fixed exponent \<open>- 1074\<close> below, and an infinity from
  \<open>2 ^ 1024\<close> on. \<open>float64_of_int\<close> is the conversion of an \<^verbatim>\<open>int\<close> operand, which raises
  \<^verbatim>\<open>OverflowError\<close> instead of giving an infinity; \<open>float64_mul\<close> is \<^verbatim>\<open>*\<close>, the exact product
  rounded once. \<open>py_round\<close> is the builtin \<^verbatim>\<open>round\<close> of one argument, the integer nearest to the
  exact value of a finite double, half to even; on an infinity it raises \<^verbatim>\<open>OverflowError\<close>
  and on \<open>NaN\<close> \<^verbatim>\<open>ValueError\<close>. \<open>effective_steps\<close> is the line
  \<^verbatim>\<open>max(1, int(round(num_steps * denoise_strength)))\<close>.
\<close>

datatype float64 = Finite int int | PosInf | NegInf | NaN

definition float64_value :: "float64 \<Rightarrow> real" where
  "float64_value x =
     (case x of
        Finite m e \<Rightarrow> (if 0 \<le> e then of_int (m * 2 ^ nat e) else of_int m / 2 ^ nat (- e))
      | _ \<Rightarrow> 0)"

fun float64_lt :: "float64 \<Rightarrow> float64 \<Rightarrow> bool" where
  "float64_lt NaN y = False"
| "float64_lt x NaN = False"
| "float64_lt PosInf y = False"
| "float64_lt x NegInf = False"
| "float64_lt NegInf y = True"
| "float64_lt x PosInf = True"
| "float64_lt (Finite m e) (Finite m' e') =
     (float64_value (Finite m e) < float64_value (Finite m' e'))"

fun float64_le :: "float64 \<Rightarrow> float64 \<Rightarrow> bool" where
  "float64_le NaN y = False"
| "float64_le x NaN = False"
| "float64_le NegInf y = True"
| "float64_le x PosInf = True"
| "float64_le PosInf y = False"
| "float64_le x NegInf = False"
| "float64_le (Finite m e) (Finite m' e') =
     (float64_value (Finite m e) \<le> float64_value (Finite m' e'))"

definition float64_min :: "float64 \<Rightarrow> float64 \<Rightarrow> float64" where
  "float64_min x y = (if float64_lt y x then y else x)"

definition float64_max :: "float64 \<Rightarrow> float64 \<Rightarrow> float64" where
  "float64_max x y = (if float64_lt x y then y else x)"

definition shift_round :: "nat \<Rightarrow> nat \<Rightarrow> nat" where
  "shift_round a s =
     (let q = a div 2 ^ s; r = a mod 2 ^ s; half = 2 ^ (s - 1)
      in if r < half then q else if half < r then q + 1 else if even q then q else q + 1)"

definition float64_round :: "int \<Rightarrow> int \<Rightarrow> float64" where
  "float64_round m e =
     (let a = nat \<bar>m\<bar>;
          s = max (int (top_bit a) - 52) (- 1074 - e);
          q = (if s \<le> 0 then a else shift_round a (nat s));
          e' = (if s \<le> 0 then e else e + s)
      in if 0 \<le> e' \<and> 2 ^ 1024 \<le> q * 2 ^ nat e' then (if m < 0 then NegInf else PosInf)
         else Finite (if m < 0 then - int q else int q) e')"

definition float64_of_int :: "int \<Rightarrow> exn + float64" where
  "float64_of_int n =
     (case float64_round n 0 of Finite m e \<Rightarrow> Inr (Finite m e) | _ \<Rightarrow> Inl OverflowError)"

fun float64_mul :: "float64 \<Rightarrow> float64 \<Rightarrow> float64" where
  "float64_mul (Finite m e) (Finite m' e') = float64_round (m * m') (e + e')"
| "float64_mul NaN y = NaN"
| "float64_mul x NaN = NaN"
| "float64_mul (Finite m e) PosInf = (if m = 0 then NaN else if 0 < m then PosInf else NegInf)"
| "float64_mul (Finite m e) NegInf = (if m = 0 then NaN else if 0 < m then NegInf else PosInf)"
| "float64_mul PosInf (Finite m e) = (if m = 0 then NaN else if 0 < m then PosInf else NegInf)"
| "float64_mul NegInf (Finite m e) = (if m = 0 then NaN else if 0 < m then NegInf else PosInf)"
| "float64_mul PosInf PosInf = PosInf"
| "float64_mul PosInf NegInf = NegInf"
| "float64_mul NegInf PosInf = NegInf"
| "float64_mul NegInf NegInf = PosInf"

definition round_half_even :: "real \<Rightarrow> int" where
  "round_half_even x =
     (let f = \<lfloor>x\<rfloor>; d = x - of_int f
      in if d < 1 / 2 then f else if 1 / 2 < d then f + 1 else if even f then f else f + 1)"

definition py_round :: "float64 \<Rightarrow> exn + int" where
  "py_round x =
     (case x of
        Finite m e \<Rightarrow> Inr (round_half_even (float64_value (Finite m e)))
      | NaN \<Rightarrow> Inl (ValueError ''cannot convert float NaN to integer'')
      | _ \<Rightarrow> Inl OverflowError)"

definition effective_steps :: "int \<Rightarrow> float64 \<Rightarrow> exn + int" where
  "effective_steps num_steps denoise_strength =
     bind_exn (float64_of_int num_steps) (\<lambda>n.
     bind_exn (py_round (float64_mul n denoise_strength)) (\<lambda>rounded.
       Inr (max 1 rounded)))"

text \<open>
  The wrapper's state is the fields \<^verbatim>\<open>infer\<close> reads and writes. Everything outside the
  repository is the environment: the \<^verbatim>\<open>soundfile\<close> library (\<open>None\<close> when its import raises),
  whether the output directory can be made and the input file written with the samples
  and the rate given, the clock that seeds a negative \<^verbatim>\<open>seed\<close>, the pipeline
  \<^verbatim>\<open>self.model(**infer_kwargs)\<close> with the reading of its output file, and the float32 mean over
  the channels of a frame. A pipeline outcome is \<open>Raises\<close> (an exception from the call on,
  caught by \<^verbatim>\<open>except Exception\<close>), \<open>NoOutputWav\<close> (no existing \<^verbatim>\<open>.wav\<close> path in the result) or
  \<open>OutputWav\<close> with the array \<^verbatim>\<open>sf.read\<close> returns, one- or two-dimensional. \<^verbatim>\<open>infer\<close> raises
  (the step count is computed before the \<^verbatim>\<open>try\<close> block) or returns the samples, the
  wrapper's new state and the list of pipeline calls it made. The floats that are only
  passed on to the pipeline are idealised as reals.
\<close>

record wrapper =
  is_loaded :: bool
  has_model :: bool
  inference_count :: nat

datatype pipeline_outcome = Raises | NoOutputWav | OutputWav ndarray

record infer_kwargs =
  kw_prompt :: string
  kw_lyrics :: string
  kw_audio_duration :: real
  kw_infer_step :: int
  kw_guidance_scale :: real
  kw_scheduler_type :: string
  kw_cfg_type :: string
  kw_omega_scale :: real
  kw_manual_seeds :: "int list"
  kw_guidance_interval :: real
  kw_guidance_interval_decay :: real
  kw_min_guidance_scale :: real
  kw_use_erg_tag :: bool
  kw_use_erg_lyric :: bool
  kw_use_erg_diffusion :: bool
  kw_audio2audio_enable :: bool
  kw_ref_audio_strength :: real
  kw_ref_audio_input :: "float32 list \<times> nat"
  kw_retake_variance :: real
  kw_batch_size :: int

record environment =
  soundfile :: "soundfile option"
  input_written :: "float32 list \<Rightarrow> nat \<Rightarrow> bool"
  clock_ms :: int
  pipeline :: "infer_kwargs \<Rightarrow> pipeline_outcome"
  mean_axis1 :: "float32 list \<Rightarrow> float32"

record infer_args =
  audio_samples :: "float32 list"
  sample_rate :: nat
  prompt :: string
  guidance_scale :: real
  num_steps :: int
  seed :: int
  input_strength :: real
  audio_duration :: real
  denoise_strength :: float64
  guidance_interval :: real
  guidance_interval_decay :: real
  omega_scale :: real
  min_guidance_scale :: real
  retake_variance :: real
  scheduler_type :: string
  cfg_type :: string
  use_erg_tag :: bool
  use_erg_lyric :: bool
  use_erg_diffusion :: bool

definition build_kwargs :: "environment \<Rightarrow> infer_args \<Rightarrow> int \<Rightarrow> infer_kwargs" where
  "build_kwargs env a steps =
     \<lparr>kw_prompt = prompt a, kw_lyrics = ''[inst]'', kw_audio_duration = audio_duration a,
      kw_infer_step = steps, kw_guidance_scale = guidance_scale a,
      kw_scheduler_type = scheduler_type a, kw_cfg_type = cfg_type a,
      kw_omega_scale = omega_scale a,
      kw_manual_seeds = [if seed a < 0 then clock_ms env mod 2 ^ 32 else seed a],
      kw_guidance_interval = guidance_interval a,
      kw_guidance_interval_decay = guidance_interval_decay a,
      kw_min_guidance_scale = min_guidance_scale a,
      kw_use_erg_tag = use_erg_tag a, kw_use_erg_lyric = use_erg_lyric a,
      kw_use_erg_diffusion = use_erg_diffusion a, kw_audio2audio_enable = True,
      kw_ref_audio_strength = input_strength a,
      kw_ref_audio_input = (audio_samples a, sample_rate a),
      kw_retake_variance = retake_variance a, kw_batch_size = 1\<rparr>"

definition infer ::
  "environment \<Rightarrow> wrapper \<Rightarrow> infer_args \<Rightarrow> exn + (float32 list \<times> wrapper \<times> infer_kwargs list)" where
  "infer env self a =
     (if \<not> is_loaded self \<or> \<not> has_model self then Inr (audio_samples a, self, [])
      else
        let denoise = float64_max (Finite 0 0) (float64_min (Finite 1 0) (denoise_strength a)) in
        if float64_le denoise (Finite 0 0) then Inr (audio_samples a, self, [])
        else
          bind_exn (effective_steps (num_steps a) denoise) (\<lambda>steps.
            if soundfile env = None \<or> \<not> input_written env (audio_samples a) (sample_rate a)
            then Inr (audio_samples a, self, [])
            else
              let infer_kwargs = build_kwargs env a steps in
              (case pipeline env infer_kwargs of
                 Raises \<Rightarrow> Inr (audio_samples a, self, [infer_kwargs])
               | NoOutputWav \<Rightarrow> Inr (audio_samples a, self, [infer_kwargs])
               | OutputWav audio_out \<Rightarrow>
                   Inr (case audio_out of
                          Mono samples \<Rightarrow> samples
                        | Frames frames \<Rightarrow> map (mean_axis1 env) frames,
                        self\<lparr>inference_count := inference_count self + 1\<rparr>, [infer_kwargs]))))"

subsection \<open>Rounding and the step count\<close>

lemma round_half_even_spec:
  "\<bar>of_int (round_half_even x) - x\<bar> \<le> 1 / 2
   \<and> (\<bar>of_int (round_half_even x) - x\<bar> = 1 / 2 \<longrightarrow> even (round_half_even x))"
proof -
  define f where "f = \<lfloor>x\<rfloor>"
  define d where "d = x - of_int f"
  have b: "0 \<le> d" "d < 1" unfolding d_def f_def by linarith+
  have r: "round_half_even x
      = (if d < 1 / 2 then f else if 1 / 2 < d then f + 1 else if even f then f else f + 1)"
    by (simp add: round_half_even_def Let_def f_def d_def)
  have x: "x = of_int f + d" by (simp add: d_def)
  consider "d < 1 / 2" | "1 / 2 < d" | "d = 1 / 2" "even f" | "d = 1 / 2" "odd f"
    by fastforce
  then show ?thesis
  proof cases
    case 1
    then have "round_half_even x = f" by (simp add: r)
    with 1 b show ?thesis by (simp add: x)
  next
    case 2
    then have "round_half_even x = f + 1" by (simp add: r)
    with 2 b show ?thesis by (simp add: x)
  next
    case 3
    then have "round_half_even x = f" by (simp add: r)
    with 3 show ?thesis by (simp add: x)
  next
    case 4
    then have "round_half_even x = f + 1" by (simp add: r)
    with 4 show ?thesis by (simp add: x)
  qed
qed

lemma round_half_even_of_int [simp]: "round_half_even (of_int n) = n"
  by (simp add: round_half_even_def)

lemma round_half_even_numeral [simp]: "round_half_even (numeral k) = numeral k"
  using round_half_even_of_int [of "numeral k"] by simp

lemma float64_value_simps [simp]:
  "float64_value (Finite 0 e) = 0"
  "float64_value (Finite m 0) = of_int m"
  by (simp_all add: float64_value_def)

lemma float64_value_pos: "0 < float64_value (Finite m e) \<longleftrightarrow> 0 < m"
  by (simp add: float64_value_def zero_less_mult_iff zero_less_divide_iff)

lemma float64_value_neg: "float64_value (Finite m e) < 0 \<longleftrightarrow> m < 0"
  by (simp add: float64_value_def mult_less_0_iff divide_less_0_iff)

lemma clamp_cases:
  "float64_max (Finite 0 0) (float64_min (Finite 1 0) d) =
     (case d of
        Finite m e \<Rightarrow>
          if float64_value d < 1 then (if 0 < float64_value d then d else Finite 0 0)
          else Finite 1 0
      | PosInf \<Rightarrow> Finite 1 0
      | NegInf \<Rightarrow> Finite 0 0
      | NaN \<Rightarrow> Finite 1 0)"
  by (cases d) (simp_all add: float64_max_def float64_min_def)

lemma clamp_idem:
  "float64_max (Finite 0 0) (float64_min (Finite 1 0)
     (float64_max (Finite 0 0) (float64_min (Finite 1 0) d)))
   = float64_max (Finite 0 0) (float64_min (Finite 1 0) d)"
  by (cases d) (simp_all add: clamp_cases)

lemma shift_round_le: "shift_round a s \<le> a div 2 ^ s + 1"
  by (simp add: shift_round_def Let_def)

lemma top_bit_less:
  assumes "a < 2 ^ k" "0 < k"
  shows "top_bit a < k"
proof (cases "a = 0")
  case True
  with assms(2) show ?thesis by simp
next
  case False
  then have "2 ^ top_bit a \<le> a" using top_bit_bounds [of a] by simp
  with assms(1) have "(2::nat) ^ top_bit a < 2 ^ k" by linarith
  then show ?thesis by (rule power_less_imp_less_exp [rotated]) simp
qed

lemma float64_round_exact:
  assumes "nat \<bar>m\<bar> < 2 ^ 53" "- 1074 \<le> e" "e \<le> 0"
  shows "float64_round m e = Finite m e"
proof -
  define a where "a = nat \<bar>m\<bar>"
  from assms(1) have "top_bit a < 53" unfolding a_def by (rule top_bit_less) simp
  with assms(2) have s: "max (int (top_bit a) - 52) (- 1074 - e) \<le> 0" by simp
  have lt: "(2::nat) ^ 53 < 2 ^ 1024" by simp
  from assms(1) lt have big: "\<not> (2::nat) ^ 1024 \<le> a" unfolding a_def by linarith
  have sg: "(if m < 0 then - int a else int a) = m" by (simp add: a_def)
  have e0: "nat e = 0" using assms(3) by simp
  have "float64_round m e
      = (if 0 \<le> e \<and> 2 ^ 1024 \<le> a * 2 ^ nat e then (if m < 0 then NegInf else PosInf)
         else Finite (if m < 0 then - int a else int a) e)"
    unfolding float64_round_def Let_def a_def [symmetric] using s by (simp only: if_True)
  also have "\<dots> = Finite m e" using big by (simp only: sg e0) simp
  finally show ?thesis .
qed

lemma float64_of_int_exact:
  assumes "\<bar>n\<bar> < 2 ^ 53"
  shows "float64_of_int n = Inr (Finite n 0)"
proof -
  from assms have "nat \<bar>n\<bar> < 2 ^ 53" by (simp add: nat_less_iff)
  then have "float64_round n 0 = Finite n 0" by (rule float64_round_exact) simp_all
  then show ?thesis by (simp add: float64_of_int_def)
qed

lemma float64_mul_finite:
  assumes "\<bar>n\<bar> < 2 ^ 53" "0 < m" "float64_value (Finite m e) \<le> 1"
  shows "\<exists>m' e'. float64_mul (Finite n 0) (Finite m e) = Finite m' e'"
proof -
  define k where "k = nat (- e)"
  have e0: "e \<le> 0"
  proof (rule ccontr)
    assume "\<not> e \<le> 0"
    then have p: "0 < e" by simp
    then have "(2::int) ^ 1 \<le> 2 ^ nat e" by (intro power_increasing) simp_all
    with assms(2) have "2 * 1 \<le> 2 ^ nat e * m" by (intro mult_mono) simp_all
    then have "2 \<le> m * 2 ^ nat e" by (simp add: mult.commute)
    then have "(2::real) \<le> of_int (m * 2 ^ nat e)" by linarith
    with assms(3) p show False by (simp add: float64_value_def)
  qed
  then have e: "e = - int k" by (simp add: k_def)
  have mk: "m \<le> 2 ^ k"
  proof (cases "e = 0")
    case True
    with assms(3) show ?thesis by (simp add: k_def)
  next
    case False
    with e0 have "e < 0" by simp
    with assms(3) have "real_of_int m / 2 ^ k \<le> 1" by (simp add: float64_value_def k_def)
    then have "real_of_int m \<le> 2 ^ k" by (simp add: field_simps)
    then have "real_of_int m \<le> real_of_int (2 ^ k)" by simp
    then show ?thesis by (simp only: of_int_le_iff)
  qed
  define a where "a = nat \<bar>n * m\<bar>"
  define s where "s = max (int (top_bit a) - 52) (- 1074 - e)"
  define q where "q = (if s \<le> 0 then a else shift_round a (nat s))"
  define e' where "e' = (if s \<le> 0 then e else e + s)"
  have am: "a = nat \<bar>n\<bar> * nat m" using assms(2) by (simp add: a_def abs_mult nat_mult_distrib)
  from assms(1) have n: "nat \<bar>n\<bar> < 2 ^ 53" by (simp add: nat_less_iff)
  from mk assms(2) have m: "nat m \<le> 2 ^ k" by (simp add: nat_le_iff)
  from assms(2) have m0: "0 < nat m" by simp
  have "nat \<bar>n\<bar> * nat m < 2 ^ 53 * nat m" using n m0 by simp
  also have "\<dots> \<le> 2 ^ 53 * 2 ^ k" using m by simp
  finally have a: "a < 2 ^ 53 * 2 ^ k" by (simp only: am)
  then have "a < 2 ^ (53 + k)" by (simp only: power_add)
  then have "top_bit a < 53 + k" by (rule top_bit_less) simp
  then have sk: "s \<le> int k" unfolding s_def e by simp
  have adiv: "a div 2 ^ k < 2 ^ 53"
    using a by (simp add: less_mult_imp_div_less)
  have r: "float64_round (n * m) e
      = (if 0 \<le> e' \<and> 2 ^ 1024 \<le> q * 2 ^ nat e' then (if n * m < 0 then NegInf else PosInf)
         else Finite (if n * m < 0 then - int q else int q) e')"
    unfolding float64_round_def Let_def a_def [symmetric] s_def [symmetric] q_def e'_def
    by (rule refl)
  have lt: "(2::nat) ^ 53 < 2 ^ 1024" by simp
  have no: "\<not> (0 \<le> e' \<and> 2 ^ 1024 \<le> q * 2 ^ nat e')"
  proof
    assume h: "0 \<le> e' \<and> 2 ^ 1024 \<le> q * 2 ^ nat e'"
    show False
    proof (cases "s \<le> 0")
      case True
      with h have "0 \<le> e" by (simp add: e'_def)
      with e have k0: "k = 0" by simp
      from True have "q = a" "e' = e" by (simp_all add: q_def e'_def)
      with h k0 e a lt show False by simp
    next
      case False
      then have e': "e' = s - int k" by (simp add: e'_def e)
      with h sk have s: "s = int k" by simp
      with e' have z: "nat e' = 0" by simp
      from False s have "q = shift_round a k" by (simp add: q_def)
      with shift_round_le [of a k] adiv have "q \<le> 2 ^ 53" by simp
      with h z lt show False by simp
    qed
  qed
  have "float64_mul (Finite n 0) (Finite m e) = float64_round (n * m) e" by simp
  with r no show ?thesis by simp
qed

lemma round_half_even_unique:
  assumes "\<bar>of_int r - x\<bar> \<le> 1 / 2" "\<bar>of_int r - x\<bar> = 1 / 2 \<longrightarrow> even r"
  shows "r = round_half_even x"
proof -
  define r' where "r' = round_half_even x"
  from round_half_even_spec [of x]
  have s: "\<bar>of_int r' - x\<bar> \<le> 1 / 2" "\<bar>of_int r' - x\<bar> = 1 / 2 \<longrightarrow> even r'"
    by (simp_all add: r'_def)
  from assms(1) s(1) have "\<bar>real_of_int r - of_int r'\<bar> \<le> 1" by linarith
  then have "\<bar>real_of_int (r - r')\<bar> \<le> 1" by simp
  then have "\<bar>r - r'\<bar> \<le> 1" by linarith
  then consider "r = r'" | "r = r' + 1" | "r' = r + 1" by linarith
  then have "r = r'"
  proof cases
    case 1
    then show ?thesis .
  next
    case 2
    then have "real_of_int r = of_int r' + 1" by simp
    with assms(1) s(1) have "\<bar>of_int r - x\<bar> = 1 / 2" "\<bar>of_int r' - x\<bar> = 1 / 2" by linarith+
    with assms(2) s(2) have "even r" "even r'" by simp_all
    with 2 show ?thesis by simp
  next
    case 3
    then have "real_of_int r' = of_int r + 1" by simp
    with assms(1) s(1) have "\<bar>of_int r - x\<bar> = 1 / 2" "\<bar>of_int r' - x\<bar> = 1 / 2" by linarith+
    with assms(2) s(2) have "even r" "even r'" by simp_all
    with 3 show ?thesis by simp
  qed
  then show ?thesis by (simp add: r'_def)
qed

lemma effective_steps_small:
  assumes "\<bar>n\<bar> < 2 ^ 53" "0 < m" "float64_value (Finite m e) \<le> 1"
  shows "effective_steps n (Finite m e)
       = Inr (max 1 (round_half_even (float64_value (float64_mul (Finite n 0) (Finite m e)))))"
proof -
  from float64_mul_finite [OF assms] obtain m' e'
    where p: "float64_mul (Finite n 0) (Finite m e) = Finite m' e'" by blast
  show ?thesis
    by (simp only: effective_steps_def float64_of_int_exact [OF assms(1)] bind_exn_def sum.case p
        py_round_def float64.case)
qed

lemma clamp_unit:
  assumes "0 < m" "float64_value (Finite m e) \<le> 1"
  shows "\<exists>m' e'. float64_max (Finite 0 0) (float64_min (Finite 1 0) (Finite m e)) = Finite m' e'
           \<and> 0 < m' \<and> float64_value (Finite m' e') = float64_value (Finite m e)
           \<and> (float64_value (Finite m e) < 1 \<longrightarrow> Finite m' e' = Finite m e)
           \<and> \<not> float64_le (Finite m' e') (Finite 0 0)"
proof (cases "float64_value (Finite m e) < 1")
  case True
  with assms float64_value_pos [of m e] show ?thesis by (simp add: clamp_cases)
next
  case False
  with assms(2) have "float64_value (Finite m e) = 1" by simp
  then show ?thesis by (simp add: clamp_cases)
qed

definition example_soundfile :: soundfile where
  "example_soundfile =
     \<lparr>sf_read = (\<lambda>wav_bytes.
         case decode_wav_fallback (\<lambda>frame. 0) wav_bytes of
           Inl e \<Rightarrow> Inl (LibsndfileError ''Format not recognised'')
         | Inr (samples, sr) \<Rightarrow> Inr (Mono samples, sr)),
      sf_write = encode_wav_fallback\<rparr>"

definition example_env :: environment where
  "example_env =
     \<lparr>soundfile = Some example_soundfile, input_written = (\<lambda>samples rate. True),
      clock_ms = 1700000000000,
      pipeline = (\<lambda>kw. if kw_infer_step kw = 2 then OutputWav (Frames [[5, 7], [9, 11]])
                         else if kw_infer_step kw = 4 then OutputWav (Mono [8, 9])
                         else if kw_infer_step kw = 31 then NoOutputWav
                         else Raises),
      mean_axis1 = sum_list\<rparr>"

definition example_args :: "int \<Rightarrow> float64 \<Rightarrow> infer_args" where
  "example_args n d = \<lparr>audio_samples = [1, 2, 3], sample_rate = 48000, prompt = ''drone'',
     guidance_scale = 15, num_steps = n, seed = - 1, input_strength = 3 / 5,
     audio_duration = 10, denoise_strength = d, guidance_interval = 1 / 2,
     guidance_interval_decay = 0, omega_scale = 10, min_guidance_scale = 3,
     retake_variance = 0, scheduler_type = ''euler'', cfg_type = ''apg'', use_erg_tag = True,
     use_erg_lyric = True, use_erg_diffusion = True\<rparr>"

definition loaded :: wrapper where
  "loaded = \<lparr>is_loaded = True, has_model = True, inference_count = 4\<rparr>"

lemma example_products:
  "float64_mul (Finite 20 0) (Finite 1 0) = Finite 20 0"
  "float64_mul (Finite 45 0) (Finite 6305039478318694 (- 53)) = Finite 8866461766385663 (- 48)"
  "float64_mul (Finite 25 0) (Finite 7205759403792794 (- 56)) = Finite 5629499534213120 (- 51)"
  "float64_mul (Finite 7 0) (Finite 1 (- 1)) = Finite 7 (- 1)"
  "float64_mul (Finite 20 0) (Finite 1 (- 3)) = Finite 20 (- 3)"
  "float64_mul (Finite 1 0) (Finite 1 (- 2)) = Finite 1 (- 2)"
  "float64_mul (Finite 5 0) (Finite 6305039478318694 (- 53)) = Finite 7881299347898368 (- 51)"
  by (simp_all add: float64_round_def shift_round_def Let_def)

lemma example_rounds:
  "round_half_even (float64_value (Finite 20 0)) = 20"
  "round_half_even (float64_value (Finite 8866461766385663 (- 48))) = 31"
  "round_half_even (float64_value (Finite 5629499534213120 (- 51))) = 2"
  "round_half_even (float64_value (Finite 7 (- 1))) = 4"
  "round_half_even (float64_value (Finite 20 (- 3))) = 2"
  "round_half_even (float64_value (Finite 1 (- 2))) = 0"
  "round_half_even (float64_value (Finite 7881299347898368 (- 51))) = 4"
  by (simp_all add: round_half_even_def float64_value_def Let_def)

lemma infer_not_loaded:
  "\<not> is_loaded self \<or> \<not> has_model self \<Longrightarrow> infer env self a = Inr (audio_samples a, self, [])"
  by (auto simp: infer_def)

lemma infer_loaded:
  assumes "is_loaded self" "has_model self"
  shows "infer env self a =
     (let denoise = float64_max (Finite 0 0) (float64_min (Finite 1 0) (denoise_strength a)) in
      if float64_le denoise (Finite 0 0) then Inr (audio_samples a, self, [])
      else
        bind_exn (effective_steps (num_steps a) denoise) (\<lambda>steps.
          if soundfile env = None \<or> \<not> input_written env (audio_samples a) (sample_rate a)
          then Inr (audio_samples a, self, [])
          else
            (case pipeline env (build_kwargs env a steps) of
               Raises \<Rightarrow> Inr (audio_samples a, self, [build_kwargs env a steps])
             | NoOutputWav \<Rightarrow> Inr (audio_samples a, self, [build_kwargs env a steps])
             | OutputWav audio_out \<Rightarrow>
                 Inr (case audio_out of
                        Mono samples \<Rightarrow> samples
                      | Frames frames \<Rightarrow> map (mean_axis1 env) frames,
                      self\<lparr>inference_count := inference_count self + 1\<rparr>,
                      [build_kwargs env a steps]))))"
  unfolding infer_def Let_def using assms by simp

text \<open>
  Claim C2. Whenever the model is not loaded, \<open>infer\<close> returns the input samples and the
  wrapper unchanged (so \<open>inference_count\<close> unchanged) without a pipeline call. When the model
  is loaded, the denoise strength is positive and the step count is computed: if the
  engine invocation fails (the preparation or the pipeline raises, or no output WAV is
  produced) \<open>infer\<close> returns the input samples and the wrapper unchanged; if the pipeline
  produces an output WAV, \<open>infer\<close> increments \<open>inference_count\<close> by exactly one and returns
  the output, as it is when it has one dimension and with every frame replaced by the mean
  of its channels when it has two. Whatever \<open>infer\<close> returns, one of four things happened:
  no pipeline call, the wrapper and the samples unchanged; one pipeline call that failed,
  the wrapper and the samples unchanged; one pipeline call with a one-dimensional output,
  returned with the count incremented; one pipeline call with a two-dimensional output, its
  frames' means returned with the count incremented.
\<close>

theorem infer_process_contract:
  fixes env :: environment and self :: wrapper and a :: infer_args
    and denoise :: float64 and prepared :: bool
  defines "denoise \<equiv> float64_max (Finite 0 0) (float64_min (Finite 1 0) (denoise_strength a))"
    and "prepared \<equiv> soundfile env \<noteq> None \<and> input_written env (audio_samples a) (sample_rate a)"
  shows "(\<not> is_loaded self \<or> \<not> has_model self \<longrightarrow> infer env self a = Inr (audio_samples a, self, []))
   \<and> (\<forall>steps kw. is_loaded self \<and> has_model self \<and> \<not> float64_le denoise (Finite 0 0)
          \<and> effective_steps (num_steps a) denoise = Inr steps \<and> kw = build_kwargs env a steps
        \<longrightarrow>
          (\<not> prepared \<longrightarrow> infer env self a = Inr (audio_samples a, self, []))
        \<and> (prepared \<and> (pipeline env kw = Raises \<or> pipeline env kw = NoOutputWav)
             \<longrightarrow> infer env self a = Inr (audio_samples a, self, [kw]))
        \<and> (\<forall>samples. prepared \<and> pipeline env kw = OutputWav (Mono samples)
             \<longrightarrow> infer env self a
                 = Inr (samples, self\<lparr>inference_count := inference_count self + 1\<rparr>, [kw]))
        \<and> (\<forall>frames. prepared \<and> pipeline env kw = OutputWav (Frames frames)
             \<longrightarrow> infer env self a
                 = Inr (map (mean_axis1 env) frames,
                        self\<lparr>inference_count := inference_count self + 1\<rparr>, [kw])))
   \<and> (\<forall>out self' calls. infer env self a = Inr (out, self', calls) \<longrightarrow>
          calls = [] \<and> self' = self \<and> out = audio_samples a
        \<or> (\<exists>kw. calls = [kw] \<and> (pipeline env kw = Raises \<or> pipeline env kw = NoOutputWav)
               \<and> self' = self \<and> out = audio_samples a)
        \<or> (\<exists>kw. calls = [kw] \<and> pipeline env kw = OutputWav (Mono out)
               \<and> self' = self\<lparr>inference_count := inference_count self + 1\<rparr>)
        \<or> (\<exists>kw frames. calls = [kw] \<and> pipeline env kw = OutputWav (Frames frames)
               \<and> out = map (mean_axis1 env) frames
               \<and> self' = self\<lparr>inference_count := inference_count self + 1\<rparr>))"
proof -
  have A: "\<not> is_loaded self \<or> \<not> has_model self \<longrightarrow> infer env self a = Inr (audio_samples a, self, [])"
    using infer_not_loaded [of self env a] by blast
  have B: "\<forall>steps kw. is_loaded self \<and> has_model self \<and> \<not> float64_le denoise (Finite 0 0)
          \<and> effective_steps (num_steps a) denoise = Inr steps \<and> kw = build_kwargs env a steps
        \<longrightarrow>
          (\<not> prepared \<longrightarrow> infer env self a = Inr (audio_samples a, self, []))
        \<and> (prepared \<and> (pipeline env kw = Raises \<or> pipeline env kw = NoOutputWav)
             \<longrightarrow> infer env self a = Inr (audio_samples a, self, [kw]))
        \<and> (\<forall>samples. prepared \<and> pipeline env kw = OutputWav (Mono samples)
             \<longrightarrow> infer env self a
                 = Inr (samples, self\<lparr>inference_count := inference_count self + 1\<rparr>, [kw]))
        \<and> (\<forall>frames. prepared \<and> pipeline env kw = OutputWav (Frames frames)
             \<longrightarrow> infer env self a
                 = Inr (map (mean_axis1 env) frames,
                        self\<lparr>inference_count := inference_count self + 1\<rparr>, [kw]))"
  proof (intro allI impI)
    fix steps kw
    assume h: "is_loaded self \<and> has_model self \<and> \<not> float64_le denoise (Finite 0 0)
          \<and> effective_steps (num_steps a) denoise = Inr steps \<and> kw = build_kwargs env a steps"
    then have i: "infer env self a =
        (if \<not> prepared then Inr (audio_samples a, self, [])
         else
           (case pipeline env kw of
              Raises \<Rightarrow> Inr (audio_samples a, self, [kw])
            | NoOutputWav \<Rightarrow> Inr (audio_samples a, self, [kw])
            | OutputWav audio_out \<Rightarrow>
                Inr (case audio_out of
                       Mono samples \<Rightarrow> samples
                     | Frames frames \<Rightarrow> map (mean_axis1 env) frames,
                     self\<lparr>inference_count := inference_count self + 1\<rparr>, [kw])))"
      unfolding denoise_def prepared_def by (clarsimp simp: infer_loaded Let_def bind_exn_def)
    show "(\<not> prepared \<longrightarrow> infer env self a = Inr (audio_samples a, self, []))
        \<and> (prepared \<and> (pipeline env kw = Raises \<or> pipeline env kw = NoOutputWav)
             \<longrightarrow> infer env self a = Inr (audio_samples a, self, [kw]))
        \<and> (\<forall>samples. prepared \<and> pipeline env kw = OutputWav (Mono samples)
             \<longrightarrow> infer env self a
                 = Inr (samples, self\<lparr>inference_count := inference_count self + 1\<rparr>, [kw]))
        \<and> (\<forall>frames. prepared \<and> pipeline env kw = OutputWav (Frames frames)
             \<longrightarrow> infer env self a
                 = Inr (map (mean_axis1 env) frames,
                        self\<lparr>inference_count := inference_count self + 1\<rparr>, [kw]))"
      unfolding i by auto
  qed
  have C: "\<forall>out self' calls. infer env self a = Inr (out, self', calls) \<longrightarrow>
          calls = [] \<and> self' = self \<and> out = audio_samples a
        \<or> (\<exists>kw. calls = [kw] \<and> (pipeline env kw = Raises \<or> pipeline env kw = NoOutputWav)
               \<and> self' = self \<and> out = audio_samples a)
        \<or> (\<exists>kw. calls = [kw] \<and> pipeline env kw = OutputWav (Mono out)
               \<and> self' = self\<lparr>inference_count := inference_count self + 1\<rparr>)
        \<or> (\<exists>kw frames. calls = [kw] \<and> pipeline env kw = OutputWav (Frames frames)
               \<and> out = map (mean_axis1 env) frames
               \<and> self' = self\<lparr>inference_count := inference_count self + 1\<rparr>)"
  proof (intro allI impI)
    fix out self' calls
    assume r: "infer env self a = Inr (out, self', calls)"
    show "calls = [] \<and> self' = self \<and> out = audio_samples a
        \<or> (\<exists>kw. calls = [kw] \<and> (pipeline env kw = Raises \<or> pipeline env kw = NoOutputWav)
               \<and> self' = self \<and> out = audio_samples a)
        \<or> (\<exists>kw. calls = [kw] \<and> pipeline env kw = OutputWav (Mono out)
               \<and> self' = self\<lparr>inference_count := inference_count self + 1\<rparr>)
        \<or> (\<exists>kw frames. calls = [kw] \<and> pipeline env kw = OutputWav (Frames frames)
               \<and> out = map (mean_axis1 env) frames
               \<and> self' = self\<lparr>inference_count := inference_count self + 1\<rparr>)"
    proof (cases "is_loaded self \<and> has_model self")
      case False
      then have "infer env self a = Inr (audio_samples a, self, [])"
        by (intro infer_not_loaded) simp
      with r show ?thesis by simp
    next
      case True
      then have l: "is_loaded self" "has_model self" by simp_all
      from r show ?thesis
        unfolding infer_loaded [OF l] Let_def bind_exn_def
        by (auto split: if_splits sum.splits pipeline_outcome.splits ndarray.splits)
    qed
  qed
  show ?thesis by (rule conjI [OF A conjI [OF B C]])
qed

lemma example_steps:
  "effective_steps 20 (Finite 1 0) = Inr 20"
  "effective_steps 45 (Finite 6305039478318694 (- 53)) = Inr 31"
  "effective_steps 25 (Finite 7205759403792794 (- 56)) = Inr 2"
  "effective_steps 7 (Finite 1 (- 1)) = Inr 4"
  "effective_steps 20 (Finite 1 (- 3)) = Inr 2"
  "effective_steps 1 (Finite 1 (- 2)) = Inr 1"
  "effective_steps 5 (Finite 6305039478318694 (- 53)) = Inr 4"
  by (simp_all add: effective_steps_def bind_exn_def float64_of_int_exact example_products
      py_round_def example_rounds del: float64_mul.simps)

lemma example_facts:
  "is_loaded loaded" "has_model loaded" "inference_count loaded = 4"
  "soundfile example_env = Some example_soundfile" "input_written example_env samples rate"
  "mean_axis1 example_env = sum_list"
  "num_steps (example_args n d) = n" "denoise_strength (example_args n d) = d"
  "audio_samples (example_args n d) = [1, 2, 3]"
  "kw_infer_step (build_kwargs env a steps) = steps"
  "pipeline example_env (build_kwargs env a steps)
     = (if steps = 2 then OutputWav (Frames [[5, 7], [9, 11]])
        else if steps = 4 then OutputWav (Mono [8, 9])
        else if steps = 31 then NoOutputWav else Raises)"
  by (simp_all add: loaded_def example_env_def example_args_def build_kwargs_def)

theorem infer_process_contract_witness:
  "infer example_env (loaded\<lparr>is_loaded := False\<rparr>) (example_args 20 (Finite 1 0))
     = Inr ([1, 2, 3], loaded\<lparr>is_loaded := False\<rparr>, [])
   \<and> infer example_env loaded (example_args 20 (Finite 1 0))
     = Inr ([1, 2, 3], loaded, [build_kwargs example_env (example_args 20 (Finite 1 0)) 20])
   \<and> infer example_env loaded (example_args 45 (Finite 6305039478318694 (- 53)))
     = Inr ([1, 2, 3], loaded,
            [build_kwargs example_env (example_args 45 (Finite 6305039478318694 (- 53))) 31])
   \<and> infer (example_env\<lparr>soundfile := None\<rparr>) loaded (example_args 20 (Finite 1 (- 3)))
     = Inr ([1, 2, 3], loaded, [])
   \<and> infer example_env loaded (example_args 20 (Finite 1 (- 3)))
     = Inr ([12, 20], loaded\<lparr>inference_count := 5\<rparr>,
            [build_kwargs example_env (example_args 20 (Finite 1 (- 3))) 2])
   \<and> infer example_env loaded (example_args 7 (Finite 1 (- 1)))
     = Inr ([8, 9], loaded\<lparr>inference_count := 5\<rparr>,
            [build_kwargs example_env (example_args 7 (Finite 1 (- 1))) 4])"
proof -
  note f = example_facts example_steps clamp_cases float64_value_def
  have a: "infer example_env (loaded\<lparr>is_loaded := False\<rparr>) (example_args 20 (Finite 1 0))
     = Inr ([1, 2, 3], loaded\<lparr>is_loaded := False\<rparr>, [])"
    using infer_process_contract [of "loaded\<lparr>is_loaded := False\<rparr>" example_env
        "example_args 20 (Finite 1 0)"]
    by (simp add: f)
  have b: "infer example_env loaded (example_args 20 (Finite 1 0))
     = Inr ([1, 2, 3], loaded, [build_kwargs example_env (example_args 20 (Finite 1 0)) 20])"
    using infer_process_contract [of loaded example_env "example_args 20 (Finite 1 0)"]
    by (simp add: f)
  have c: "infer example_env loaded (example_args 45 (Finite 6305039478318694 (- 53)))
     = Inr ([1, 2, 3], loaded,
            [build_kwargs example_env (example_args 45 (Finite 6305039478318694 (- 53))) 31])"
    using infer_process_contract [of loaded example_env
        "example_args 45 (Finite 6305039478318694 (- 53))"]
    by (simp add: f)
  have d: "infer (example_env\<lparr>soundfile := None\<rparr>) loaded (example_args 20 (Finite 1 (- 3)))
     = Inr ([1, 2, 3], loaded, [])"
    using infer_process_contract [of loaded "example_env\<lparr>soundfile := None\<rparr>"
        "example_args 20 (Finite 1 (- 3))"]
    by (simp add: f)
  have e: "infer example_env loaded (example_args 20 (Finite 1 (- 3)))
     = Inr ([12, 20], loaded\<lparr>inference_count := 5\<rparr>,
            [build_kwargs example_env (example_args 20 (Finite 1 (- 3))) 2])"
    using infer_process_contract [of loaded example_env "example_args 20 (Finite 1 (- 3))"]
    by (simp add: f)
  have g: "infer example_env loaded (example_args 7 (Finite 1 (- 1)))
     = Inr ([8, 9], loaded\<lparr>inference_count := 5\<rparr>,
            [build_kwargs example_env (example_args 7 (Finite 1 (- 1))) 4])"
    using infer_process_contract [of loaded example_env "example_args 7 (Finite 1 (- 1))"]
    by (simp add: f)
  from a b c d e g show ?thesis by (intro conjI)
qed

lemma float64_of_int_overflow: "float64_of_int (2 ^ 1024) = Inl OverflowError"
  by (simp add: float64_of_int_def float64_round_def shift_round_def Let_def)

text \<open>
  Claim C7, as stated, fails. With the model loaded and a denoise strength in \<open>(0, 1]\<close>
  the engine is not invoked when the preparation inside the \<^verbatim>\<open>try\<close> block raises: \<^verbatim>\<open>soundfile\<close>
  cannot be imported, or the input file cannot be written. The exception is caught and
  \<open>infer\<close> returns the input. And the step count is computed before the \<^verbatim>\<open>try\<close> block: a
  \<open>num_steps\<close> of \<open>2 ^ 1024\<close> does not convert to a float, and \<open>infer\<close> raises.
\<close>

theorem infer_engine_not_invoked:
  "is_loaded loaded \<and> has_model loaded
   \<and> infer (example_env\<lparr>soundfile := None\<rparr>) loaded (example_args 20 (Finite 1 0))
       = Inr ([1, 2, 3], loaded, [])
   \<and> infer (example_env\<lparr>input_written := \<lambda>samples rate. False\<rparr>) loaded
        (example_args 20 (Finite 1 (- 1)))
       = Inr ([1, 2, 3], loaded, [])
   \<and> infer example_env loaded (example_args (2 ^ 1024) (Finite 1 (- 1))) = Inl OverflowError"
proof -
  have s: "effective_steps 20 (Finite 1 (- 1)) = Inr 10"
    by (simp add: effective_steps_def bind_exn_def float64_of_int_exact py_round_def
        float64_round_def Let_def float64_value_def)
  have o: "effective_steps (2 ^ 1024) (Finite 1 (- 1)) = Inl OverflowError"
    by (simp only: effective_steps_def float64_of_int_overflow bind_exn_def sum.case)
  have c: "float64_max (Finite 0 0) (float64_min (Finite 1 0) (Finite 1 (- 1))) = Finite 1 (- 1)"
    by (simp add: clamp_cases float64_value_def)
  have l: "\<not> float64_le (Finite 1 (- 1)) (Finite 0 0)" by (simp add: float64_value_def)
  have third: "infer example_env loaded (example_args (2 ^ 1024) (Finite 1 (- 1))) = Inl OverflowError"
    unfolding infer_loaded [OF example_facts(1,2)] example_facts(7,8) Let_def c
    by (simp only: l if_False o bind_exn_def sum.case)
  have "infer (example_env\<lparr>soundfile := None\<rparr>) loaded (example_args 20 (Finite 1 0))
       = Inr ([1, 2, 3], loaded, [])"
    "infer (example_env\<lparr>input_written := \<lambda>samples rate. False\<rparr>) loaded
        (example_args 20 (Finite 1 (- 1)))
       = Inr ([1, 2, 3], loaded, [])"
    by (simp_all add: infer_loaded example_facts example_steps s clamp_cases float64_value_def
        bind_exn_def Let_def)
  with third example_facts(1,2) show ?thesis by (intro conjI)
qed

lemma float64_value_exact_product:
  assumes "\<bar>n * m\<bar> < 2 ^ 53" "- 1074 \<le> e" "e \<le> 0"
  shows "float64_value (float64_mul (Finite n 0) (Finite m e)) = of_int n * float64_value (Finite m e)"
proof -
  from assms(1) have "nat \<bar>n * m\<bar> < 2 ^ 53" by (simp add: nat_less_iff)
  from float64_round_exact [OF this assms(2,3)]
  have "float64_mul (Finite n 0) (Finite m e) = Finite (n * m) e" by simp
  then show ?thesis by (simp add: float64_value_def)
qed

lemma infer_saturated:
  "infer env self a
     = infer env self
         (a\<lparr>denoise_strength :=
              float64_max (Finite 0 0) (float64_min (Finite 1 0) (denoise_strength a))\<rparr>)"
proof -
  have k: "build_kwargs env (a\<lparr>denoise_strength := x\<rparr>) steps = build_kwargs env a steps"
    for x steps
    by (simp add: build_kwargs_def)
  show ?thesis unfolding infer_def Let_def bind_exn_def
    by (auto simp: clamp_idem k split: sum.splits pipeline_outcome.splits)
qed

text \<open>
  Claim C7, amended. With the model loaded, a denoise strength of 0 or less makes \<open>infer\<close>
  return the input samples unchanged without a pipeline call. For a denoise strength in
  \<open>(0, 1]\<close> and a \<open>num_steps\<close> below \<open>2 ^ 53\<close> in absolute value: when the preparation inside
  the \<^verbatim>\<open>try\<close> block succeeds (\<^verbatim>\<open>soundfile\<close> is imported and the input file is written) the
  pipeline is called exactly once, with \<open>infer_step = max 1 r\<close> where \<open>r\<close> is the integer
  nearest to the double-precision product \<open>num_steps * denoise_strength\<close>, the even one of
  the two when the product is halfway; when the preparation raises, \<open>infer\<close> returns the
  input without a pipeline call. The product is exact when it fits 53 bits. A denoise
  strength outside \<open>[0, 1]\<close> is first saturated to the nearest bound (\<open>NaN\<close> to 1): \<open>infer\<close>
  does with it what it does with the bound.
\<close>

theorem infer_denoise_strength:
  fixes env :: environment and self :: wrapper and a :: infer_args
    and d denoise :: float64 and n :: int and prepared :: bool and x :: real
  assumes "is_loaded self" "has_model self"
  defines "d \<equiv> denoise_strength a" and "n \<equiv> num_steps a"
    and "denoise \<equiv> float64_max (Finite 0 0) (float64_min (Finite 1 0) (denoise_strength a))"
    and "prepared \<equiv> soundfile env \<noteq> None \<and> input_written env (audio_samples a) (sample_rate a)"
    and "x \<equiv> float64_value (float64_mul (Finite (num_steps a) 0)
                 (float64_max (Finite 0 0) (float64_min (Finite 1 0) (denoise_strength a))))"
  shows "((\<exists>m e. d = Finite m e \<and> m \<le> 0) \<or> d = NegInf
            \<longrightarrow> infer env self a = Inr (audio_samples a, self, []))
     \<and> (\<forall>m e. d = Finite m e \<and> 0 < m \<and> float64_value d \<le> 1 \<and> \<bar>n\<bar> < 2 ^ 53 \<longrightarrow>
            float64_value denoise = float64_value d
          \<and> (float64_value d < 1 \<longrightarrow> denoise = d)
          \<and> (prepared \<longrightarrow>
                (\<exists>out self' kw r. infer env self a = Inr (out, self', [kw])
                    \<and> kw_infer_step kw = max 1 r
                    \<and> \<bar>of_int r - x\<bar> \<le> 1 / 2 \<and> (\<bar>of_int r - x\<bar> = 1 / 2 \<longrightarrow> even r)))
          \<and> (\<not> prepared \<longrightarrow> infer env self a = Inr (audio_samples a, self, []))
          \<and> (\<bar>n * m\<bar> < 2 ^ 53 \<and> - 1074 \<le> e \<longrightarrow> x = of_int n * float64_value d))
     \<and> infer env self a = infer env self (a\<lparr>denoise_strength := denoise\<rparr>)
     \<and> ((\<exists>m e. d = Finite m e \<and> 1 < float64_value d) \<or> d = PosInf \<or> d = NaN
            \<longrightarrow> denoise = Finite 1 0)
     \<and> ((\<exists>m e. d = Finite m e \<and> float64_value d < 0) \<or> d = NegInf
            \<longrightarrow> denoise = Finite 0 0)"
proof -
  note i = infer_loaded [OF assms(1,2), of env a]
  have A: "(\<exists>m e. d = Finite m e \<and> m \<le> 0) \<or> d = NegInf
            \<longrightarrow> infer env self a = Inr (audio_samples a, self, [])"
  proof
    assume "(\<exists>m e. d = Finite m e \<and> m \<le> 0) \<or> d = NegInf"
    then have "denoise = Finite 0 0"
      unfolding denoise_def d_def using float64_value_pos by (auto simp: clamp_cases)
    then show "infer env self a = Inr (audio_samples a, self, [])"
      unfolding i denoise_def by (simp add: Let_def)
  qed
  have B: "\<forall>m e. d = Finite m e \<and> 0 < m \<and> float64_value d \<le> 1 \<and> \<bar>n\<bar> < 2 ^ 53 \<longrightarrow>
            float64_value denoise = float64_value d
          \<and> (float64_value d < 1 \<longrightarrow> denoise = d)
          \<and> (prepared \<longrightarrow>
                (\<exists>out self' kw r. infer env self a = Inr (out, self', [kw])
                    \<and> kw_infer_step kw = max 1 r
                    \<and> \<bar>of_int r - x\<bar> \<le> 1 / 2 \<and> (\<bar>of_int r - x\<bar> = 1 / 2 \<longrightarrow> even r)))
          \<and> (\<not> prepared \<longrightarrow> infer env self a = Inr (audio_samples a, self, []))
          \<and> (\<bar>n * m\<bar> < 2 ^ 53 \<and> - 1074 \<le> e \<longrightarrow> x = of_int n * float64_value d)"
  proof (intro allI impI)
    fix m e
    assume h: "d = Finite m e \<and> 0 < m \<and> float64_value d \<le> 1 \<and> \<bar>n\<bar> < 2 ^ 53"
    then have dm: "d = Finite m e" and m: "0 < m" and v: "float64_value (Finite m e) \<le> 1"
      and n: "\<bar>n\<bar> < 2 ^ 53" by auto
    from clamp_unit [OF m v] obtain m' e' where
      c: "denoise = Finite m' e'" and m': "0 < m'"
      and v': "float64_value (Finite m' e') = float64_value (Finite m e)"
      and same: "float64_value (Finite m e) < 1 \<longrightarrow> Finite m' e' = Finite m e"
      and pos: "\<not> float64_le (Finite m' e') (Finite 0 0)"
      unfolding denoise_def d_def [symmetric] dm by blast
    from v v' have v1: "float64_value (Finite m' e') \<le> 1" by simp
    define r where "r = round_half_even x"
    have xd: "x = float64_value (float64_mul (Finite n 0) (Finite m' e'))"
      unfolding x_def n_def c [unfolded denoise_def] by (rule refl)
    have st: "effective_steps n (Finite m' e') = Inr (max 1 r)"
      unfolding r_def xd by (rule effective_steps_small [OF n m' v1])
    let ?kw = "build_kwargs env a (max 1 r)"
    have inf: "infer env self a =
        (if \<not> prepared then Inr (audio_samples a, self, [])
         else
           (case pipeline env ?kw of
              Raises \<Rightarrow> Inr (audio_samples a, self, [?kw])
            | NoOutputWav \<Rightarrow> Inr (audio_samples a, self, [?kw])
            | OutputWav audio_out \<Rightarrow>
                Inr (case audio_out of
                       Mono samples \<Rightarrow> samples
                     | Frames frames \<Rightarrow> map (mean_axis1 env) frames,
                     self\<lparr>inference_count := inference_count self + 1\<rparr>, [?kw])))"
      unfolding i c [unfolded denoise_def] Let_def n_def [symmetric] st prepared_def
      using pos by (simp add: bind_exn_def)
    have k: "kw_infer_step ?kw = max 1 r" by (simp add: build_kwargs_def)
    have called: "\<exists>out self' kw r. infer env self a = Inr (out, self', [kw])
                    \<and> kw_infer_step kw = max 1 r
                    \<and> \<bar>of_int r - x\<bar> \<le> 1 / 2 \<and> (\<bar>of_int r - x\<bar> = 1 / 2 \<longrightarrow> even r)"
      if "prepared"
    proof -
      from that inf obtain out self' where "infer env self a = Inr (out, self', [?kw])"
        by (cases "pipeline env ?kw") simp_all
      with k round_half_even_spec [of x] show ?thesis unfolding r_def by blast
    qed
    have skipped: "infer env self a = Inr (audio_samples a, self, [])" if "\<not> prepared"
      using that by (simp add: inf)
    have exact: "x = of_int n * float64_value d" if "\<bar>n * m\<bar> < 2 ^ 53 \<and> - 1074 \<le> e"
    proof (cases "float64_value (Finite m e) < 1")
      case True
      with same have eq: "Finite m' e' = Finite m e" by simp
      have "e \<le> 0"
      proof (rule ccontr)
        assume "\<not> e \<le> 0"
        then have p: "0 < e" by simp
        from m have "1 * 1 \<le> m * 2 ^ nat e" by (intro mult_mono) simp_all
        then have "1 \<le> m * 2 ^ nat e" by simp
        then have "(1::real) \<le> of_int (m * 2 ^ nat e)" by linarith
        with True p show False by (simp add: float64_value_def)
      qed
      with that float64_value_exact_product [of n m e] show ?thesis
        unfolding xd eq dm by simp
    next
      case False
      with v have one: "float64_value (Finite m e) = 1" by simp
      then have "denoise = Finite 1 0" unfolding denoise_def d_def [symmetric] dm
        by (simp add: clamp_cases)
      with c have "Finite m' e' = Finite 1 0" by simp
      moreover have "float64_value (float64_mul (Finite n 0) (Finite 1 0)) = of_int n"
        using float64_value_exact_product [of n 1 0] n by simp
      ultimately show ?thesis unfolding xd dm one by simp
    qed
    from c v' same called skipped exact
    show "float64_value denoise = float64_value d
          \<and> (float64_value d < 1 \<longrightarrow> denoise = d)
          \<and> (prepared \<longrightarrow>
                (\<exists>out self' kw r. infer env self a = Inr (out, self', [kw])
                    \<and> kw_infer_step kw = max 1 r
                    \<and> \<bar>of_int r - x\<bar> \<le> 1 / 2 \<and> (\<bar>of_int r - x\<bar> = 1 / 2 \<longrightarrow> even r)))
          \<and> (\<not> prepared \<longrightarrow> infer env self a = Inr (audio_samples a, self, []))
          \<and> (\<bar>n * m\<bar> < 2 ^ 53 \<and> - 1074 \<le> e \<longrightarrow> x = of_int n * float64_value d)"
      unfolding dm by blast
  qed
  have C: "infer env self a = infer env self (a\<lparr>denoise_strength := denoise\<rparr>)"
    unfolding denoise_def by (rule infer_saturated)
  have D: "(\<exists>m e. d = Finite m e \<and> 1 < float64_value d) \<or> d = PosInf \<or> d = NaN
            \<longrightarrow> denoise = Finite 1 0"
    unfolding denoise_def d_def by (auto simp: clamp_cases)
  have E: "(\<exists>m e. d = Finite m e \<and> float64_value d < 0) \<or> d = NegInf
            \<longrightarrow> denoise = Finite 0 0"
    unfolding denoise_def d_def by (auto simp: clamp_cases)
  show ?thesis by (rule conjI [OF A conjI [OF B conjI [OF C conjI [OF D E]]]])
qed

theorem infer_denoise_strength_witness:
  "is_loaded loaded \<and> has_model loaded
   \<and> infer example_env loaded (example_args 20 (Finite 0 0)) = Inr ([1, 2, 3], loaded, [])
   \<and> (\<exists>out self' kw. infer example_env loaded (example_args 45 (Finite 6305039478318694 (- 53)))
            = Inr (out, self', [kw]) \<and> kw_infer_step kw = 31)
   \<and> (\<exists>out self' kw. infer example_env loaded (example_args 5 (Finite 6305039478318694 (- 53)))
            = Inr (out, self', [kw]) \<and> kw_infer_step kw = 4)
   \<and> (\<exists>out self' kw. infer example_env loaded (example_args 25 (Finite 7205759403792794 (- 56)))
            = Inr (out, self', [kw]) \<and> kw_infer_step kw = 2)
   \<and> (\<exists>out self' kw. infer example_env loaded (example_args 7 (Finite 1 (- 1)))
            = Inr (out, self', [kw]) \<and> kw_infer_step kw = 4)
   \<and> (\<exists>out self' kw. infer example_env loaded (example_args 20 (Finite 1 (- 3)))
            = Inr (out, self', [kw]) \<and> kw_infer_step kw = 2)
   \<and> (\<exists>out self' kw. infer example_env loaded (example_args 1 (Finite 1 (- 2)))
            = Inr (out, self', [kw]) \<and> kw_infer_step kw = 1)
   \<and> infer (example_env\<lparr>soundfile := None\<rparr>) loaded (example_args 20 (Finite 1 (- 3)))
       = Inr ([1, 2, 3], loaded, [])
   \<and> infer example_env loaded (example_args 20 (Finite 7 0))
       = infer example_env loaded (example_args 20 (Finite 1 0))
   \<and> infer example_env loaded (example_args 20 NaN)
       = infer example_env loaded (example_args 20 (Finite 1 0))
   \<and> infer example_env loaded (example_args 20 (Finite (- 3) 0))
       = infer example_env loaded (example_args 20 (Finite 0 0))"
proof -
  note l = example_facts(1,2)
  note t = infer_denoise_strength [OF l]
  have u: "(example_args n x)\<lparr>denoise_strength := y\<rparr> = example_args n y" for n x y
    by (simp add: example_args_def)
  have step: "\<exists>out self' kw. infer example_env loaded (example_args n (Finite m e))
          = Inr (out, self', [kw])
        \<and> kw_infer_step kw
            = max 1 (round_half_even (float64_value (float64_mul (Finite n 0) (Finite m e))))"
    if "0 < m" "float64_value (Finite m e) < 1" "\<bar>n\<bar> < 2 ^ 53" for n m e
  proof -
    from that float64_value_pos [of m e]
    have c: "float64_max (Finite 0 0) (float64_min (Finite 1 0) (Finite m e)) = Finite m e"
      by (simp add: clamp_cases)
    let ?a = "example_args n (Finite m e)"
    have h: "denoise_strength ?a = Finite m e \<and> 0 < m \<and> float64_value (denoise_strength ?a) \<le> 1
        \<and> \<bar>num_steps ?a\<bar> < 2 ^ 53"
      using that by (simp add: example_facts)
    have p: "soundfile example_env \<noteq> None
        \<and> input_written example_env (audio_samples ?a) (sample_rate ?a)"
      by (simp add: example_facts)
    note t1 = t [of ?a example_env, THEN conjunct2, THEN conjunct1, rule_format, OF h]
    from t1 [THEN conjunct2, THEN conjunct2, THEN conjunct1, rule_format, OF p]
    obtain out self' kw r where
      i: "infer example_env loaded ?a = Inr (out, self', [kw])"
      and k: "kw_infer_step kw = max 1 r"
      and r0: "\<bar>of_int r - float64_value (float64_mul (Finite (num_steps ?a) 0)
                 (float64_max (Finite 0 0) (float64_min (Finite 1 0) (denoise_strength ?a))))\<bar>
             \<le> 1 / 2"
        "\<bar>of_int r - float64_value (float64_mul (Finite (num_steps ?a) 0)
                 (float64_max (Finite 0 0) (float64_min (Finite 1 0) (denoise_strength ?a))))\<bar>
             = 1 / 2 \<longrightarrow> even r"
      by blast
    from r0 have r: "\<bar>of_int r - float64_value (float64_mul (Finite n 0) (Finite m e))\<bar> \<le> 1 / 2"
        "\<bar>of_int r - float64_value (float64_mul (Finite n 0) (Finite m e))\<bar> = 1 / 2 \<longrightarrow> even r"
      by (simp_all only: example_facts c)
    from r have "r = round_half_even (float64_value (float64_mul (Finite n 0) (Finite m e)))"
      by (rule round_half_even_unique)
    with i k show ?thesis by blast
  qed
  have a: "infer example_env loaded (example_args 20 (Finite 0 0)) = Inr ([1, 2, 3], loaded, [])"
    using t [of "example_args 20 (Finite 0 0)" example_env] by (simp add: example_facts)
  have b: "infer (example_env\<lparr>soundfile := None\<rparr>) loaded (example_args 20 (Finite 1 (- 3)))
       = Inr ([1, 2, 3], loaded, [])"
    using t [of "example_args 20 (Finite 1 (- 3))" "example_env\<lparr>soundfile := None\<rparr>",
        THEN conjunct2, THEN conjunct1, rule_format, of 1 "- 3"]
    by (simp add: example_facts float64_value_def)
  have c: "infer example_env loaded (example_args 20 (Finite 7 0))
       = infer example_env loaded (example_args 20 (Finite 1 0))"
    using t [of "example_args 20 (Finite 7 0)" example_env]
    by (simp add: example_facts u clamp_cases)
  have d: "infer example_env loaded (example_args 20 NaN)
       = infer example_env loaded (example_args 20 (Finite 1 0))"
    using t [of "example_args 20 NaN" example_env]
    by (simp add: example_facts u clamp_cases)
  have e: "infer example_env loaded (example_args 20 (Finite (- 3) 0))
       = infer example_env loaded (example_args 20 (Finite 0 0))"
    using t [of "example_args 20 (Finite (- 3) 0)" example_env]
    by (simp add: example_facts u clamp_cases a)
  have v: "float64_value (Finite 6305039478318694 (- 53)) < 1"
    "float64_value (Finite 7205759403792794 (- 56)) < 1"
    "float64_value (Finite 1 (- 1)) < 1" "float64_value (Finite 1 (- 3)) < 1"
    "float64_value (Finite 1 (- 2)) < 1"
    by (simp_all add: float64_value_def)
  have s1: "\<exists>out self' kw. infer example_env loaded (example_args 45 (Finite 6305039478318694 (- 53)))
            = Inr (out, self', [kw]) \<and> kw_infer_step kw = 31"
    using step [of 6305039478318694 "- 53" 45, OF _ v(1)]
    by (simp add: example_products example_rounds del: float64_mul.simps)
  have s0: "\<exists>out self' kw. infer example_env loaded (example_args 5 (Finite 6305039478318694 (- 53)))
            = Inr (out, self', [kw]) \<and> kw_infer_step kw = 4"
    using step [of 6305039478318694 "- 53" 5, OF _ v(1)]
    by (simp add: example_products example_rounds del: float64_mul.simps)
  have s2: "\<exists>out self' kw. infer example_env loaded (example_args 25 (Finite 7205759403792794 (- 56)))
            = Inr (out, self', [kw]) \<and> kw_infer_step kw = 2"
    using step [of 7205759403792794 "- 56" 25, OF _ v(2)]
    by (simp add: example_products example_rounds del: float64_mul.simps)
  have s3: "\<exists>out self' kw. infer example_env loaded (example_args 7 (Finite 1 (- 1)))
            = Inr (out, self', [kw]) \<and> kw_infer_step kw = 4"
    using step [of 1 "- 1" 7, OF _ v(3)]
    by (simp add: example_products example_rounds del: float64_mul.simps)
  have s4: "\<exists>out self' kw. infer example_env loaded (example_args 20 (Finite 1 (- 3)))
            = Inr (out, self', [kw]) \<and> kw_infer_step kw = 2"
    using step [of 1 "- 3" 20, OF _ v(4)]
    by (simp add: example_products example_rounds del: float64_mul.simps)
  have s5: "\<exists>out self' kw. infer example_env loaded (example_args 1 (Finite 1 (- 2)))
            = Inr (out, self', [kw]) \<and> kw_infer_step kw = 1"
    using step [of 1 "- 2" 1, OF _ v(5)]
    by (simp add: example_products example_rounds del: float64_mul.simps)
  from l a s1 s0 s2 s3 s4 s5 b c d e show ?thesis by (intro conjI)
qed

section \<open>The /infer route\<close>













end
